theory Spec2Isabelle
  imports Complex_Main "HOL-Library.Multiset"
begin

section \<open>Strings\<close>

text \<open>
  A Python \<open>str\<close> is modelled as a \<open>string\<close> whose characters are code points below 256
  (ASCII and Latin-1, which holds the pound sign \<open>U+00A3\<close> of the currency patterns).
\<close>

definition py_isspace :: "char \<Rightarrow> bool" where
  \<comment> \<open>\<open>str.isspace\<close> on one code point below 256\<close>
  "py_isspace c = ((of_char c :: nat) \<in> {9, 10, 11, 12, 13, 28, 29, 30, 31, 32, 133, 160})"

definition strip :: "string \<Rightarrow> string" where
  \<comment> \<open>\<open>str.strip()\<close>\<close>
  "strip s = rev (dropWhile py_isspace (rev (dropWhile py_isspace s)))"

definition endswith :: "string \<Rightarrow> string \<Rightarrow> bool" where
  \<comment> \<open>\<open>s.endswith(suffix)\<close>\<close>
  "endswith s suffix = (length suffix \<le> length s \<and> drop (length s - length suffix) s = suffix)"

fun startswith :: "string \<Rightarrow> string \<Rightarrow> bool" where
  "startswith s [] = True"
| "startswith [] (p # ps) = False"
| "startswith (c # cs) (p # ps) = (c = p \<and> startswith cs ps)"

fun contains :: "string \<Rightarrow> string \<Rightarrow> bool" where
  \<comment> \<open>\<open>sub in s\<close>\<close>
  "contains sub [] = (sub = [])"
| "contains sub (c # cs) = (startswith (c # cs) sub \<or> contains sub cs)"

definition remove_chars :: "char list \<Rightarrow> string \<Rightarrow> string" where
  \<comment> \<open>\<open>re.sub("[...]", "", s)\<close> for a character class, and \<open>s.replace(ch, "")\<close>\<close>
  "remove_chars cls s = filter (\<lambda>c. c \<notin> set cls) s"

definition rstrip_chars :: "char list \<Rightarrow> string \<Rightarrow> string" where
  \<comment> \<open>\<open>s.rstrip(chars)\<close>\<close>
  "rstrip_chars cls s = rev (dropWhile (\<lambda>c. c \<in> set cls) (rev s))"

definition py_lower_char :: "char \<Rightarrow> char" where
  "py_lower_char c =
     (let n = (of_char c :: nat)
      in if (65 \<le> n \<and> n \<le> 90) \<or> (192 \<le> n \<and> n \<le> 222 \<and> n \<noteq> 215)
         then char_of (n + 32) else c)"

definition py_lower :: "string \<Rightarrow> string" where
  \<comment> \<open>\<open>str.lower()\<close>\<close>
  "py_lower s = map py_lower_char s"

definition pound :: char where
  \<comment> \<open>the pound sign, \<open>U+00A3\<close>\<close>
  "pound = char_of (163 :: nat)"

definition a_circumflex :: char where
  \<comment> \<open>\<open>U+00C2\<close>, which stands before the pound sign in the pattern of Home.py\<close>
  "a_circumflex = char_of (194 :: nat)"

definition digit_char :: "nat \<Rightarrow> char" where
  "digit_char d = char_of (48 + d)"

function show_nat :: "int \<Rightarrow> string" where
  \<comment> \<open>\<open>str(n)\<close> for a whole number that is not negative\<close>
  "show_nat n = (if n < 10 then [digit_char (nat n)] else show_nat (n div 10) @ [digit_char (nat (n mod 10))])"
  by pat_completeness auto
termination
  by (relation "measure nat") auto

declare show_nat.simps [simp del]

definition show_int :: "int \<Rightarrow> string" where
  \<comment> \<open>\<open>str(i)\<close>\<close>
  "show_int i = (if i < 0 then CHR ''-'' # show_nat (- i) else show_nat i)"

definition zero_pad :: "nat \<Rightarrow> string \<Rightarrow> string" where
  \<comment> \<open>left padding with zeros to a width, as \<open>%02d\<close> does\<close>
  "zero_pad w s = replicate (w - length s) CHR ''0'' @ s"

section \<open>Cells, columns and tables\<close>

text \<open>
  A pandas cell is missing, a string, an integer, a float, a boolean or a timestamp. There
  are two missing cells: \<open>NA\<close> stands for \<open>NaN\<close>, \<open>None\<close> and \<open>pd.NA\<close>, the missing cell of the
  object, float, string, category and nullable columns; \<open>NaT\<close> is the missing cell of a
  \<open>datetime64[ns]\<close> column, which pandas stores as the least 64-bit integer. Floats are exact
  rationals: the binary rounding of float64 is outside the model. A timestamp is its number
  of nanoseconds since the epoch, as in \<open>datetime64[ns]\<close>.
\<close>

type_synonym timestamp = int

datatype cell = NA | NaT | Str string | IntV int | FloatV rat | BoolV bool | TsV timestamp

definition is_null :: "cell \<Rightarrow> bool" where
  \<comment> \<open>\<open>series.isna()\<close> on one cell\<close>
  "is_null c = (c = NA \<or> c = NaT)"

datatype dtype =
    Object | Int64np | Float64 | Boolnp
  | StringDtype | Category | BooleanDtype | Int64Dtype | Datetime64

definition dtype_str :: "dtype \<Rightarrow> string" where
  \<comment> \<open>\<open>str(dtype)\<close>\<close>
  "dtype_str d =
     (case d of
        Object \<Rightarrow> ''object'' | Int64np \<Rightarrow> ''int64'' | Float64 \<Rightarrow> ''float64''
      | Boolnp \<Rightarrow> ''bool'' | StringDtype \<Rightarrow> ''string'' | Category \<Rightarrow> ''category''
      | BooleanDtype \<Rightarrow> ''boolean'' | Int64Dtype \<Rightarrow> ''Int64''
      | Datetime64 \<Rightarrow> ''datetime64[ns]'')"

record column =
  col_name :: string
  col_dtype :: dtype
  col_cells :: "cell list"

text \<open>
  A DataFrame is the list of its columns, in order. \<open>read_csv\<close> gives every column its own
  name (it renames duplicates), and the model reads and writes a column by its name.
\<close>

type_synonym table = "column list"

definition columns :: "table \<Rightarrow> string list" where
  \<comment> \<open>\<open>df.columns\<close>\<close>
  "columns df = map col_name df"

definition get_column :: "table \<Rightarrow> string \<Rightarrow> column option" where
  \<comment> \<open>\<open>df[c]\<close>\<close>
  "get_column df c = find (\<lambda>col. col_name col = c) df"

definition set_column :: "string \<Rightarrow> column \<Rightarrow> table \<Rightarrow> table" where
  \<comment> \<open>\<open>df[c] = series\<close> for a column that exists\<close>
  "set_column c new df = map (\<lambda>col. if col_name col = c then new else col) df"

definition n_rows :: "table \<Rightarrow> nat" where
  \<comment> \<open>\<open>len(df)\<close>\<close>
  "n_rows df = (case df of [] \<Rightarrow> 0 | col # _ \<Rightarrow> length (col_cells col))"

section \<open>The pandas functions the code calls\<close>

text \<open>
  \<open>pd.to_numeric(s, errors="coerce")\<close> and \<open>pd.to_datetime(s, errors="coerce")\<close> are
  library code. The model takes what each does to one cell as a parameter: \<open>None\<close> is the
  \<open>NaN\<close> or \<open>NaT\<close> of a cell that does not parse. (pandas guesses one date format for a
  whole column; the model reads each cell on its own.) What the two functions do to a
  missing cell and to the cells of a \<open>datetime64[ns]\<close> column is fixed: \<open>pd.to_datetime\<close>
  returns such a column as it is, and \<open>pd.to_numeric\<close> returns its 64-bit integers, in
  which \<open>NaT\<close> is the number \<open>-9223372036854775808\<close>.
\<close>

record pandas =
  pd_to_numeric :: "cell \<Rightarrow> rat option"
  pd_to_datetime :: "cell \<Rightarrow> timestamp option"

definition to_numeric :: "pandas \<Rightarrow> cell \<Rightarrow> rat option" where
  \<comment> \<open>\<open>pd.to_numeric(s, errors="coerce")\<close> on one cell: \<open>NaN\<close> stays missing, the cells
      of a \<open>datetime64[ns]\<close> column are their integers\<close>
  "to_numeric L c =
     (case c of
        NA \<Rightarrow> None
      | NaT \<Rightarrow> Some (- 9223372036854775808)
      | TsV t \<Rightarrow> Some (of_int t)
      | _ \<Rightarrow> pd_to_numeric L c)"

definition to_datetime :: "pandas \<Rightarrow> cell \<Rightarrow> timestamp option" where
  \<comment> \<open>\<open>pd.to_datetime(s, errors="coerce")\<close> on one cell: a missing cell stays missing,
      a timestamp stays as it is\<close>
  "to_datetime L c =
     (case c of
        NA \<Rightarrow> None
      | NaT \<Rightarrow> None
      | TsV t \<Rightarrow> Some t
      | _ \<Rightarrow> pd_to_datetime L c)"

subsection \<open>Printing\<close>

fun frac_digits :: "nat \<Rightarrow> rat \<Rightarrow> string" where
  \<comment> \<open>the decimal digits of a fraction in \<open>[0, 1)\<close>, at most as many as the fuel\<close>
  "frac_digits 0 r = []"
| "frac_digits (Suc k) r =
     (if r = 0 then []
      else digit_char (nat \<lfloor>r * 10\<rfloor>) # frac_digits k (r * 10 - of_int \<lfloor>r * 10\<rfloor>))"

definition str_float :: "rat \<Rightarrow> string" where
  \<comment> \<open>\<open>str(x)\<close> of a float of moderate size: \<open>12.7\<close>, \<open>5.0\<close>, \<open>-0.25\<close>\<close>
  "str_float x =
     (let a = \<bar>x\<bar>; ip = \<lfloor>a\<rfloor>; fd = frac_digits 17 (a - of_int ip)
      in (if x < 0 then ''-'' else '''') @ show_nat ip @ ''.''
         @ (if fd = [] then ''0'' else fd))"

definition civil_from_days :: "int \<Rightarrow> int \<times> int \<times> int" where
  \<comment> \<open>year, month and day of a day number counted from 1970-01-01 (Gregorian calendar)\<close>
  "civil_from_days z0 =
     (let z = z0 + 719468;
          era = z div 146097;
          doe = z - era * 146097;
          yoe = (doe - doe div 1460 + doe div 36524 - doe div 146096) div 365;
          y = yoe + era * 400;
          doy = doe - (365 * yoe + yoe div 4 - yoe div 100);
          mp = (5 * doy + 2) div 153;
          d = doy - (153 * mp + 2) div 5 + 1;
          m = (if mp < 10 then mp + 3 else mp - 9)
      in (if m \<le> 2 then y + 1 else y, m, d))"

definition strftime :: "timestamp \<Rightarrow> string" where
  \<comment> \<open>\<open>ts.strftime("%Y-%m-%d %H:%M:%S")\<close>\<close>
  "strftime t =
     (let secs = t div 1000000000;
          days = secs div 86400;
          sod = secs mod 86400;
          ymd = civil_from_days days;
          two = (\<lambda>i. zero_pad 2 (show_nat i))
      in zero_pad 4 (show_int (fst ymd)) @ ''-'' @ two (fst (snd ymd)) @ ''-''
         @ two (snd (snd ymd)) @ '' '' @ two (sod div 3600) @ '':''
         @ two ((sod mod 3600) div 60) @ '':'' @ two (sod mod 60))"

definition astype_str :: "cell \<Rightarrow> string" where
  \<comment> \<open>\<open>series.astype(str)\<close> on one cell: a missing cell becomes the text \<open>nan\<close> or
      \<open>NaT\<close>\<close>
  "astype_str c =
     (case c of
        NA \<Rightarrow> ''nan''
      | NaT \<Rightarrow> ''NaT''
      | Str s \<Rightarrow> s
      | IntV i \<Rightarrow> show_int i
      | FloatV x \<Rightarrow> str_float x
      | BoolV b \<Rightarrow> (if b then ''True'' else ''False'')
      | TsV t \<Rightarrow> strftime t)"

definition astype_string :: "cell \<Rightarrow> cell" where
  \<comment> \<open>\<open>series.astype("string")\<close> on one cell: a missing cell stays missing\<close>
  "astype_string c = (case c of NA \<Rightarrow> NA | NaT \<Rightarrow> NA | _ \<Rightarrow> Str (astype_str c))"

subsection \<open>A concrete library for examples\<close>

text \<open>
  To run the model on examples, this library reads numbers in plain decimal notation
  (sign, digits, one point) and dates written \<open>YYYY-MM-DD\<close> or \<open>YYYY-MM-DD HH:MM:SS\<close>.
  pandas reads more (exponents, month names, other orders); the general theorems below
  hold for every library.
\<close>

definition is_digit :: "char \<Rightarrow> bool" where
  "is_digit c = (48 \<le> (of_char c :: nat) \<and> (of_char c :: nat) \<le> 57)"

definition digits_val :: "string \<Rightarrow> int" where
  "digits_val s = foldl (\<lambda>a c. 10 * a + (of_char c - 48)) 0 s"

definition parse_decimal :: "string \<Rightarrow> rat option" where
  "parse_decimal s0 =
     (let s = strip s0;
          neg = (s \<noteq> [] \<and> hd s = CHR ''-'');
          body = (if s \<noteq> [] \<and> (hd s = CHR ''-'' \<or> hd s = CHR ''+'') then tl s else s);
          ip = takeWhile is_digit body;
          rest = dropWhile is_digit body;
          fp = (case rest of [] \<Rightarrow> Some []
                | c # r \<Rightarrow> if c = CHR ''.'' \<and> list_all is_digit r then Some r else None)
      in case fp of None \<Rightarrow> None
         | Some f \<Rightarrow>
             if ip = [] \<and> f = [] then None
             else Some ((if neg then - 1 else 1) * (of_int (digits_val (ip @ f)) / 10 ^ length f)))"

definition days_from_civil :: "int \<Rightarrow> int \<Rightarrow> int \<Rightarrow> int" where
  "days_from_civil y0 m d =
     (let y = (if m \<le> 2 then y0 - 1 else y0);
          era = y div 400;
          yoe = y - era * 400;
          doy = (153 * (if m > 2 then m - 3 else m + 9) + 2) div 5 + d - 1;
          doe = yoe * 365 + yoe div 4 - yoe div 100 + doy
      in era * 146097 + doe - 719468)"

definition days_in_month :: "int \<Rightarrow> int \<Rightarrow> int" where
  "days_in_month y m =
     (if m = 2 then (if y mod 4 = 0 \<and> (y mod 100 \<noteq> 0 \<or> y mod 400 = 0) then 29 else 28)
      else if m \<in> {4, 6, 9, 11} then 30 else 31)"

definition parse_iso_date :: "string \<Rightarrow> int option" where
  \<comment> \<open>the day number of \<open>YYYY-MM-DD\<close>, for the years a \<open>datetime64[ns]\<close> holds\<close>
  "parse_iso_date s =
     (if length s = 10 \<and> list_all is_digit (take 4 s) \<and> s ! 4 = CHR ''-''
         \<and> list_all is_digit (take 2 (drop 5 s)) \<and> s ! 7 = CHR ''-''
         \<and> list_all is_digit (drop 8 s)
      then (let y = (digits_val (take 4 s));
                m = (digits_val (take 2 (drop 5 s)));
                d = (digits_val (drop 8 s))
            in if 1678 \<le> y \<and> y \<le> 2261 \<and> 1 \<le> m \<and> m \<le> 12 \<and> 1 \<le> d \<and> d \<le> days_in_month y m
               then Some (days_from_civil y m d) else None)
      else None)"

definition parse_iso_time :: "string \<Rightarrow> int option" where
  \<comment> \<open>the second of the day of \<open>HH:MM:SS\<close>\<close>
  "parse_iso_time s =
     (if length s = 8 \<and> list_all is_digit (take 2 s) \<and> s ! 2 = CHR '':''
         \<and> list_all is_digit (take 2 (drop 3 s)) \<and> s ! 5 = CHR '':''
         \<and> list_all is_digit (drop 6 s)
      then (let h = (digits_val (take 2 s));
                mi = (digits_val (take 2 (drop 3 s)));
                se = (digits_val (drop 6 s))
            in if h < 24 \<and> mi < 60 \<and> se < 60 then Some (h * 3600 + mi * 60 + se) else None)
      else None)"

definition parse_iso_datetime :: "string \<Rightarrow> timestamp option" where
  "parse_iso_datetime s0 =
     (let s = strip s0
      in if length s = 10
         then map_option (\<lambda>d. d * 86400 * 1000000000) (parse_iso_date s)
         else if length s = 19 \<and> s ! 10 = CHR '' ''
         then (case (parse_iso_date (take 10 s), parse_iso_time (drop 11 s)) of
                 (Some d, Some t) \<Rightarrow> Some ((d * 86400 + t) * 1000000000)
               | _ \<Rightarrow> None)
         else None)"

definition plain_to_numeric :: "cell \<Rightarrow> rat option" where
  "plain_to_numeric c =
     (case c of
        NA \<Rightarrow> None
      | NaT \<Rightarrow> None
      | Str s \<Rightarrow> parse_decimal s
      | IntV i \<Rightarrow> Some (of_int i)
      | FloatV x \<Rightarrow> Some x
      | BoolV b \<Rightarrow> Some (if b then 1 else 0)
      | TsV t \<Rightarrow> Some (of_int t))"

definition plain_to_datetime :: "cell \<Rightarrow> timestamp option" where
  \<comment> \<open>numbers are nanoseconds since the epoch, as \<open>pd.to_datetime\<close> reads them\<close>
  "plain_to_datetime c =
     (case c of
        NA \<Rightarrow> None
      | NaT \<Rightarrow> None
      | Str s \<Rightarrow> parse_iso_datetime s
      | IntV i \<Rightarrow> Some i
      | FloatV x \<Rightarrow> Some \<lfloor>x\<rfloor>
      | BoolV b \<Rightarrow> None
      | TsV t \<Rightarrow> Some t)"

definition plain :: pandas where
  "plain = \<lparr>pd_to_numeric = plain_to_numeric, pd_to_datetime = plain_to_datetime\<rparr>"

section \<open>The numeric normalizer\<close>

definition blank_to_na :: "string \<Rightarrow> string option" where
  \<comment> \<open>\<open>s.replace({"": pd.NA, "nan": pd.NA, "None": pd.NA})\<close> on one cell\<close>
  "blank_to_na s = (if s = '''' \<or> s = ''nan'' \<or> s = ''None'' then None else Some s)"

definition to_numeric_resilient :: "pandas \<Rightarrow> bool \<Rightarrow> cell \<Rightarrow> rat option" where
  \<comment> \<open>Home.py, \<open>to_numeric_resilient(series, pct_to_unit)\<close>, on one cell\<close>
  "to_numeric_resilient L pct_to_unit c =
     (case blank_to_na (strip (astype_str c)) of
        None \<Rightarrow> None
      | Some s \<Rightarrow>
          (let pct_mask = endswith s ''%'';
               s_clean = remove_chars ''%'' (remove_chars [a_circumflex, pound, CHR ''$'', CHR '',''] s);
               num = to_numeric L (Str s_clean)
           in if pct_to_unit \<and> pct_mask then map_option (\<lambda>x. x / 100) num else num))"

definition to_numeric_resilient_inc :: "pandas \<Rightarrow> cell \<Rightarrow> rat option" where
  \<comment> \<open>pages/05_Incremental Profiling.py, \<open>to_numeric_resilient(series)\<close>, on one cell\<close>
  "to_numeric_resilient_inc L c =
     (case blank_to_na (strip (astype_str c)) of
        None \<Rightarrow> None
      | Some s \<Rightarrow>
          to_numeric L (Str (remove_chars ''%'' (remove_chars [pound, CHR ''$'', CHR '',''] s))))"

section \<open>The schema reconciler\<close>

datatype error = CastError | KeyError

definition dtype_family :: "string \<Rightarrow> string" where
  \<comment> \<open>pages/05_Incremental Profiling.py, \<open>dtype_family(dtype_str)\<close>\<close>
  "dtype_family d =
     (if contains ''datetime64'' d then ''datetime''
      else if d = ''boolean'' \<or> d = ''bool'' then ''boolean''
      else if contains ''Int'' d \<or> contains ''int'' d then ''int''
      else if contains ''float'' d then ''float''
      else if d = ''category'' then ''category''
      else ''text'')"

definition friendly_dtype :: "string \<Rightarrow> string" where
  \<comment> \<open>pages/05_Incremental Profiling.py, \<open>friendly_dtype(dtype_str)\<close>\<close>
  "friendly_dtype d =
     (if contains ''float'' d \<or> contains ''int'' d \<or> contains ''Int'' d then ''Numeric''
      else (case map_of [(''object'', ''Text''), (''string'', ''Text''), (''category'', ''Category''),
                         (''bool'', ''Boolean''), (''boolean'', ''Boolean''),
                         (''datetime64[ns]'', ''Date/Time'')] d of
              Some t \<Rightarrow> t
            | None \<Rightarrow> d))"

definition schema_family :: "table \<Rightarrow> (string \<times> string) list" where
  \<comment> \<open>\<open>{c: dtype_family(str(dt)) for c, dt in BASE.dtypes.items()}\<close>, as the items of the dict\<close>
  "schema_family base = map (\<lambda>col. (col_name col, dtype_family (dtype_str (col_dtype col)))) base"

definition BOOL_MAP :: "(string \<times> bool) list" where
  "BOOL_MAP = [(''true'', True), (''false'', False), (''yes'', True), (''no'', False),
               (''y'', True), (''n'', False), (''1'', True), (''0'', False)]"

definition round0 :: "rat \<Rightarrow> int" where
  \<comment> \<open>\<open>round(0)\<close> of numpy: to the nearest whole number, a half to the even one\<close>
  "round0 x =
     (let f = \<lfloor>x\<rfloor>; d = x - of_int f
      in if d < 1 / 2 then f else if 1 / 2 < d then f + 1 else if even f then f else f + 1)"

definition int64_ok :: "int \<Rightarrow> bool" where
  "int64_ok n = (- (2 ^ 63) \<le> n \<and> n < 2 ^ 63)"

definition is_whole :: "rat \<Rightarrow> bool" where
  \<comment> \<open>\<open>x % 1 == 0\<close>\<close>
  "is_whole x = (of_int \<lfloor>x\<rfloor> = x)"

definition astype_Int64 :: "rat option list \<Rightarrow> error + cell list" where
  \<comment> \<open>\<open>series.astype("Int64")\<close> of a float series: pandas raises when a value is not a
      whole number of the 64-bit range, and keeps the missing cells missing\<close>
  "astype_Int64 xs =
     (if list_all (\<lambda>v. case v of None \<Rightarrow> True | Some x \<Rightarrow> is_whole x \<and> int64_ok \<lfloor>x\<rfloor>) xs
      then Inr (map (\<lambda>v. case v of None \<Rightarrow> NA | Some x \<Rightarrow> IntV \<lfloor>x\<rfloor>) xs)
      else Inl CastError)"

definition astype_float64 :: "rat option list \<Rightarrow> cell list" where
  "astype_float64 xs = map (\<lambda>v. case v of None \<Rightarrow> NA | Some x \<Rightarrow> FloatV x) xs"

definition strip_cell :: "cell \<Rightarrow> cell" where
  \<comment> \<open>\<open>.str.strip()\<close> on a cell of a string series\<close>
  "strip_cell c = (case c of Str s \<Rightarrow> Str (strip s) | _ \<Rightarrow> c)"

definition coerce_column :: "pandas \<Rightarrow> string \<Rightarrow> column \<Rightarrow> error + column" where
  \<comment> \<open>the body of the \<open>try\<close> in \<open>coerce_to_schema\<close>: the new column, or the exception raised\<close>
  "coerce_column L fam col =
     (if fam = ''datetime'' then
        Inr (col\<lparr>col_dtype := Datetime64,
                 col_cells := map (\<lambda>c. case to_datetime L c of None \<Rightarrow> NaT | Some t \<Rightarrow> TsV t)
                                  (col_cells col)\<rparr>)
      else if fam = ''boolean'' then
        Inr (col\<lparr>col_dtype := BooleanDtype,
                 col_cells := map (\<lambda>c. case map_of BOOL_MAP (py_lower (strip (astype_str c))) of
                                          None \<Rightarrow> NA | Some b \<Rightarrow> BoolV b)
                                  (col_cells col)\<rparr>)
      else if fam = ''int'' then
        (case astype_Int64 (map (\<lambda>c. map_option (\<lambda>x. of_int (round0 x)) (to_numeric_resilient_inc L c))
                                (col_cells col)) of
           Inl e \<Rightarrow> Inl e
         | Inr cs \<Rightarrow> Inr (col\<lparr>col_dtype := Int64Dtype, col_cells := cs\<rparr>))
      else if fam = ''float'' then
        Inr (col\<lparr>col_dtype := Float64,
                 col_cells := astype_float64 (map (to_numeric_resilient_inc L) (col_cells col))\<rparr>)
      else if fam = ''category'' then
        Inr (col\<lparr>col_dtype := Category,
                 col_cells := map (\<lambda>c. strip_cell (astype_string c)) (col_cells col)\<rparr>)
      else
        Inr (col\<lparr>col_dtype := StringDtype, col_cells := map astype_string (col_cells col)\<rparr>))"

fun coerce_loop :: "pandas \<Rightarrow> (string \<times> string) list \<Rightarrow> table \<Rightarrow> table" where
  \<comment> \<open>\<open>for c, fam in schema_fam.items()\<close>: \<open>continue\<close> for a name that is no column,
      \<open>except Exception: pass\<close> for a coercion that raises\<close>
  "coerce_loop L [] dfc = dfc"
| "coerce_loop L ((c, fam) # rest) dfc =
     (case get_column dfc c of
        None \<Rightarrow> coerce_loop L rest dfc
      | Some col \<Rightarrow>
          (case coerce_column L fam col of
             Inl e \<Rightarrow> coerce_loop L rest dfc
           | Inr col' \<Rightarrow> coerce_loop L rest (set_column c col' dfc)))"

definition coerce_to_schema :: "pandas \<Rightarrow> table \<Rightarrow> (string \<times> string) list \<Rightarrow> table" where
  \<comment> \<open>pages/05_Incremental Profiling.py, \<open>coerce_to_schema(df_in, schema_fam)\<close>; the dict
      is the list of its items, in order\<close>
  "coerce_to_schema L df_in schema_fam = coerce_loop L schema_fam df_in"

definition coerce_one :: "pandas \<Rightarrow> (string \<times> string) list \<Rightarrow> column \<Rightarrow> column" where
  \<comment> \<open>what the loop does to one column, seen from the column\<close>
  "coerce_one L schema_fam col =
     (case map_of schema_fam (col_name col) of
        None \<Rightarrow> col
      | Some fam \<Rightarrow> (case coerce_column L fam col of Inl e \<Rightarrow> col | Inr col' \<Rightarrow> col'))"

section \<open>The type classifier of Home.py\<close>

definition rate_ge :: "nat \<Rightarrow> nat \<Rightarrow> rat \<Rightarrow> bool" where
  \<comment> \<open>\<open>mask.mean() >= t\<close> for a mask with \<open>k\<close> of \<open>n\<close> cells set: the mean of no cell
      is \<open>NaN\<close>, which compares false\<close>
  "rate_ge k n t = (n \<noteq> 0 \<and> t \<le> of_nat k / of_nat n)"

definition count_where :: "('a \<Rightarrow> bool) \<Rightarrow> 'a list \<Rightarrow> nat" where
  "count_where P xs = length (filter P xs)"

definition is_code_char :: "char \<Rightarrow> bool" where
  \<comment> \<open>the class \<open>[A-Za-z0-9_-]\<close>\<close>
  "is_code_char c =
     (let n = (of_char c :: nat)
      in (65 \<le> n \<and> n \<le> 90) \<or> (97 \<le> n \<and> n \<le> 122) \<or> (48 \<le> n \<and> n \<le> 57)
         \<or> c = CHR ''_'' \<or> c = CHR ''-'')"

definition matches_code :: "string \<Rightarrow> bool" where
  \<comment> \<open>\<open>re.match("^[A-Za-z0-9_-]{6,}$", s)\<close> on a stripped string\<close>
  "matches_code s = (6 \<le> length s \<and> list_all is_code_char s)"

definition median :: "nat list \<Rightarrow> rat" where
  \<comment> \<open>\<open>series.median()\<close> of a series that is not empty\<close>
  "median xs =
     (let ys = sort xs; n = length ys
      in if odd n then of_nat (ys ! (n div 2))
         else (of_nat (ys ! (n div 2 - 1)) + of_nat (ys ! (n div 2))) / 2)"

definition value_counts :: "string list \<Rightarrow> nat list" where
  \<comment> \<open>the counts of \<open>series.value_counts()\<close>, the largest first\<close>
  "value_counts xs = rev (sort (map (count_list xs) (remdups xs)))"

definition looks_categorical :: "cell list \<Rightarrow> nat \<Rightarrow> bool" where
  \<comment> \<open>Home.py, \<open>looks_categorical(series, n_rows)\<close>\<close>
  "looks_categorical series n =
     (let s = map (\<lambda>c. strip (astype_str c)) (filter (\<lambda>c. \<not> is_null c) series)
      in if n = 0 \<or> length s = 0 then False
         else (let uniq = length (remdups s)
               in if 1 / 2 < (of_nat uniq / of_nat n :: rat) then False
                  else if 3 / 10 < (of_nat (count_where matches_code s) / of_nat (length s) :: rat)
                  then False
                  else (let short_labels = (median (map length s) \<le> 25);
                            abs_low = (uniq \<le> 50);
                            rel_low = ((of_nat uniq / of_nat (max n 1) :: rat) \<le> 2 / 10);
                            coverage = ((8 / 10 :: rat)
                                         \<le> of_nat (sum_list (take 10 (value_counts s))) / of_nat (length s));
                            positive = count_where id [short_labels, abs_low, rel_low, coverage]
                        in 3 \<le> positive)))"

type_synonym conversion = "string \<times> string"

definition rule_datetime :: "pandas \<Rightarrow> column \<Rightarrow> column \<times> conversion list" where
  \<comment> \<open>rule 1, Date/Time\<close>
  "rule_datetime L col =
     (if col_dtype col = Object then
        (let parsed = map (to_datetime L) (col_cells col)
         in if rate_ge (count_where (\<lambda>p. p \<noteq> None) parsed) (length parsed) (6 / 10)
            then (col\<lparr>col_dtype := Datetime64,
                      col_cells := map (\<lambda>p. case p of None \<Rightarrow> NaT | Some t \<Rightarrow> TsV t) parsed\<rparr>,
                  [(col_name col, ''datetime'')])
            else (col, []))
      else (col, []))"

definition rule_bool :: "column \<Rightarrow> column \<times> conversion list" where
  \<comment> \<open>rule 2, True/False: the cells dropped by \<open>dropna\<close> stay missing in the new column\<close>
  "rule_bool col =
     (if col_dtype col = Object then
        (let vals = map (\<lambda>c. py_lower (strip (astype_str c))) (filter (\<lambda>c. \<not> is_null c) (col_cells col))
         in if length vals \<noteq> 0
               \<and> rate_ge (count_where (\<lambda>v. v \<in> set (map fst BOOL_MAP)) vals) (length vals) (9 / 10)
            then (col\<lparr>col_dtype := BooleanDtype,
                      col_cells := map (\<lambda>c. if is_null c then NA
                                             else (case map_of BOOL_MAP (py_lower (strip (astype_str c))) of
                                                     None \<Rightarrow> NA | Some b \<Rightarrow> BoolV b))
                                       (col_cells col)\<rparr>,
                  [(col_name col, ''bool'')])
            else (col, []))
      else (col, []))"

definition nonblank :: "cell \<Rightarrow> bool" where
  \<comment> \<open>\<open>raw.replace({"": pd.NA, "nan": pd.NA, "None": pd.NA}).notna()\<close> on one cell\<close>
  "nonblank c = (blank_to_na (strip (astype_str c)) \<noteq> None)"

definition rule_numeric :: "pandas \<Rightarrow> column \<Rightarrow> error + column \<times> conversion list" where
  \<comment> \<open>rule 3, Numeric; \<open>NaN % 1 == 0\<close> is false, so a filled cell that does not parse
      sends the column to float64; \<open>astype("Int64")\<close> stands outside any \<open>try\<close>\<close>
  "rule_numeric L col =
     (if col_dtype col = Object then
        (let cs = col_cells col;
             num = map (to_numeric_resilient L True) cs;
             filled = filter nonblank cs;
             parsed_rate = (if 0 < length filled
                            then of_nat (count_where (\<lambda>c. to_numeric_resilient L True c \<noteq> None) filled)
                                 / of_nat (length filled)
                            else (0 :: rat))
         in if 9 / 10 \<le> parsed_rate \<and> rate_ge (length filled) (length cs) (5 / 100)
            then (if list_all (\<lambda>c. case to_numeric_resilient L True c of
                                      None \<Rightarrow> False | Some x \<Rightarrow> is_whole x) filled
                  then (case astype_Int64 num of
                          Inl e \<Rightarrow> Inl e
                        | Inr ints \<Rightarrow> Inr (col\<lparr>col_dtype := Int64Dtype, col_cells := ints\<rparr>,
                                          [(col_name col, ''Int64'')]))
                  else Inr (col\<lparr>col_dtype := Float64, col_cells := astype_float64 num\<rparr>,
                            [(col_name col, ''float64'')]))
            else Inr (col, []))
      else Inr (col, []))"

definition rule_category :: "nat \<Rightarrow> column \<Rightarrow> column \<times> conversion list" where
  \<comment> \<open>rule 4, Category\<close>
  "rule_category n col =
     (if col_dtype col = Object \<and> looks_categorical (col_cells col) n
      then (col\<lparr>col_dtype := Category\<rparr>, [(col_name col, ''category'')])
      else (col, []))"

definition auto_convert_column ::
  "pandas \<Rightarrow> nat \<Rightarrow> column \<Rightarrow> error + column \<times> conversion list" where
  \<comment> \<open>the body of \<open>for col in df.columns\<close> in Home.py; \<open>n\<close> is \<open>len(df)\<close>\<close>
  "auto_convert_column L n col =
     (let (c1, v1) = rule_datetime L col;
          (c2, v2) = rule_bool c1
      in case rule_numeric L c2 of
           Inl e \<Rightarrow> Inl e
         | Inr (c3, v3) \<Rightarrow>
             (let (c4, v4) = rule_category n c3 in Inr (c4, v1 @ v2 @ v3 @ v4)))"

section \<open>The row differencer\<close>

definition SENT :: string where
  "SENT = ''__NA__''"

definition fmt6 :: "rat \<Rightarrow> string" where
  \<comment> \<open>\<open>f"{x:.6f}"\<close>: six decimals, a half rounded to the even digit\<close>
  "fmt6 x =
     (let n = round0 (\<bar>x\<bar> * 1000000)
      in (if x < 0 then ''-'' else []) @ show_nat (n div 1000000) @ ''.''
         @ zero_pad 6 (show_nat (n mod 1000000)))"

definition format_num :: "rat \<Rightarrow> string" where
  \<comment> \<open>\<open>f"{x:.6f}".rstrip("0").rstrip(".")\<close>\<close>
  "format_num x = rstrip_chars ''.'' (rstrip_chars ''0'' (fmt6 x))"

definition normalize_cell :: "pandas \<Rightarrow> cell \<Rightarrow> string" where
  \<comment> \<open>one cell of \<open>normalize_for_rowdiff\<close>: a date, else a number, else the text with
      the sentinel for a missing cell; an empty result becomes the sentinel. The \<open>NaT\<close> of
      a date column is no date and, for \<open>pd.to_numeric\<close>, a number: its key is that number\<close>
  "normalize_cell L c =
     (let col_norm =
            (case to_datetime L c of
               Some t \<Rightarrow> strftime t
             | None \<Rightarrow>
                 (case to_numeric L c of
                    Some x \<Rightarrow> format_num x
                  | None \<Rightarrow>
                      (case astype_string c of
                         Str s \<Rightarrow> strip s
                       | _ \<Rightarrow> strip SENT)))
      in if col_norm = [] then SENT else col_norm)"

fun normalize_for_rowdiff :: "pandas \<Rightarrow> table \<Rightarrow> string list \<Rightarrow> error + string list list" where
  \<comment> \<open>pages/05_Incremental Profiling.py, \<open>normalize_for_rowdiff(df, cols)\<close>: the columns of
      \<open>out\<close>, in the order of \<open>cols\<close>; \<open>df[c]\<close> raises for a name that is no column\<close>
  "normalize_for_rowdiff L df [] = Inr []"
| "normalize_for_rowdiff L df (c # cols) =
     (case get_column df c of
        None \<Rightarrow> Inl KeyError
      | Some col \<Rightarrow>
          (case normalize_for_rowdiff L df cols of
             Inl e \<Rightarrow> Inl e
           | Inr out \<Rightarrow> Inr (map (normalize_cell L) (col_cells col) # out)))"

definition rows_of :: "nat \<Rightarrow> 'a list list \<Rightarrow> 'a list list" where
  \<comment> \<open>the rows of a frame of \<open>n\<close> rows, given by its columns\<close>
  "rows_of n cols = map (\<lambda>i. map (\<lambda>col. col ! i) cols) [0..<n]"

fun cumcount_from :: "'a list \<Rightarrow> 'a list \<Rightarrow> nat list" where
  \<comment> \<open>for each row, how many equal rows came before it; \<open>seen\<close> holds the rows passed\<close>
  "cumcount_from seen [] = []"
| "cumcount_from seen (r # rs) = count_list seen r # cumcount_from (r # seen) rs"

definition cumcount :: "'a list \<Rightarrow> nat list" where
  \<comment> \<open>\<open>frame.groupby(cols).cumcount()\<close>\<close>
  "cumcount rows = cumcount_from [] rows"

definition dup_keys :: "'a list \<Rightarrow> ('a \<times> nat) list" where
  \<comment> \<open>the join key of each row: the row with its \<open>__dup_idx__\<close>\<close>
  "dup_keys rows = zip rows (cumcount rows)"

definition left_only :: "'a list \<Rightarrow> 'a list \<Rightarrow> 'a list" where
  \<comment> \<open>the rows an outer merge marks \<open>left_only\<close>: left rows whose key is no right key\<close>
  "left_only left right = filter (\<lambda>k. k \<notin> set right) left"

definition right_only :: "'a list \<Rightarrow> 'a list \<Rightarrow> 'a list" where
  \<comment> \<open>the rows an outer merge marks \<open>right_only\<close>\<close>
  "right_only left right = filter (\<lambda>k. k \<notin> set left) right"

fun str_less :: "string \<Rightarrow> string \<Rightarrow> bool" where
  \<comment> \<open>\<open>a < b\<close> on strings: by code points, a proper prefix first\<close>
  "str_less [] [] = False"
| "str_less [] (b # bs) = True"
| "str_less (a # as) [] = False"
| "str_less (a # as) (b # bs) =
     ((of_char a :: nat) < of_char b \<or> (a = b \<and> str_less as bs))"

fun insort_str :: "string \<Rightarrow> string list \<Rightarrow> string list" where
  "insort_str x [] = [x]"
| "insort_str x (y # ys) = (if str_less y x then y # insort_str x ys else x # y # ys)"

definition sorted_strs :: "string list \<Rightarrow> string list" where
  \<comment> \<open>\<open>sorted(xs)\<close>\<close>
  "sorted_strs xs = foldr insort_str xs []"

definition common_cols :: "table \<Rightarrow> table \<Rightarrow> string list" where
  \<comment> \<open>\<open>sorted(list(set(BASE.columns) & set(NEW.columns)))\<close>\<close>
  "common_cols base new =
     sorted_strs (remdups (filter (\<lambda>c. c \<in> set (columns new)) (columns base)))"

datatype row_changes =
    NotComparable
  | RowDiff (added_rows: "(string list \<times> nat) list") (removed_rows: "(string list \<times> nat) list")

definition row_changes :: "pandas \<Rightarrow> table \<Rightarrow> table \<Rightarrow> error + row_changes" where
  \<comment> \<open>section 3 of the page, Row changes: the message of \<open>st.info\<close> when no column is
      common, else the added and the removed rows\<close>
  "row_changes L base new =
     (let cc = common_cols base new
      in if length cc = 0 then Inr NotComparable
         else (case normalize_for_rowdiff L base cc of
                 Inl e \<Rightarrow> Inl e
               | Inr base_n \<Rightarrow>
                   (case normalize_for_rowdiff L new cc of
                      Inl e \<Rightarrow> Inl e
                    | Inr new_n \<Rightarrow>
                        (let kb = dup_keys (rows_of (n_rows base) base_n);
                             kn = dup_keys (rows_of (n_rows new) new_n)
                         in Inr (RowDiff (right_only kb kn) (left_only kb kn))))))"

definition n_added :: "row_changes \<Rightarrow> nat" where
  "n_added d = (case d of NotComparable \<Rightarrow> 0 | RowDiff a r \<Rightarrow> length a)"

definition n_removed :: "row_changes \<Rightarrow> nat" where
  "n_removed d = (case d of NotComparable \<Rightarrow> 0 | RowDiff a r \<Rightarrow> length r)"

section \<open>The session and its tables\<close>

text \<open>
  A DataFrame is an object: two names can hold the same one, and \<open>df[col] = ...\<close> changes
  it for both. The heap lists the DataFrame objects; a reference is an index into it.
\<close>

record state =
  heap :: "table list"
  ss_df :: "nat option"
  ss_inc_new_df :: "nat option"

fun auto_convert_loop ::
  "pandas \<Rightarrow> string list \<Rightarrow> nat \<Rightarrow> table list \<Rightarrow> conversion list
     \<Rightarrow> error + table list \<times> conversion list" where
  \<comment> \<open>\<open>for col in df.columns\<close> of Home.py, where \<open>df\<close> is the object at \<open>r\<close>: each
      \<open>df[col] = ...\<close> writes into that object\<close>
  "auto_convert_loop L [] r h conversions = Inr (h, conversions)"
| "auto_convert_loop L (c # cs) r h conversions =
     (case get_column (h ! r) c of
        None \<Rightarrow> Inl KeyError
      | Some col \<Rightarrow>
          (case auto_convert_column L (n_rows (h ! r)) col of
             Inl e \<Rightarrow> Inl e
           | Inr (col', v) \<Rightarrow>
               auto_convert_loop L cs r (h[r := set_column c col' (h ! r)]) (conversions @ v)))"

definition home_main :: "pandas \<Rightarrow> state \<Rightarrow> error + state \<times> conversion list" where
  \<comment> \<open>Home.py, the main content: \<open>df = st.session_state["df"]\<close>, the conversions, and
      \<open>st.session_state["df"] = df\<close>\<close>
  "home_main L st =
     (case ss_df st of
        None \<Rightarrow> Inr (st, [])
      | Some r \<Rightarrow>
          (case auto_convert_loop L (columns (heap st ! r)) r (heap st) [] of
             Inl e \<Rightarrow> Inl e
           | Inr (h, conversions) \<Rightarrow> Inr (st\<lparr>heap := h, ss_df := Some r\<rparr>, conversions)))"

definition coerce_to_schema_ref ::
  "pandas \<Rightarrow> nat \<Rightarrow> (string \<times> string) list \<Rightarrow> table list \<Rightarrow> nat \<times> table list" where
  \<comment> \<open>\<open>coerce_to_schema\<close> on the heap: \<open>dfc = df_in.copy()\<close> is a new object, the loop
      writes into it, and it is returned\<close>
  "coerce_to_schema_ref L r schema_fam h = (length h, h @ [coerce_to_schema L (h ! r) schema_fam])"

definition build_new :: "pandas \<Rightarrow> nat \<Rightarrow> state \<Rightarrow> state" where
  \<comment> \<open>the page builds NEW once: the family map of BASE, then the coercion of the table
      read from the upload (the object at \<open>raw\<close>)\<close>
  "build_new L raw st =
     (case ss_df st of
        None \<Rightarrow> st
      | Some b \<Rightarrow>
          (case ss_inc_new_df st of
             Some n \<Rightarrow> st
           | None \<Rightarrow>
               (let (n, h) = coerce_to_schema_ref L raw (schema_family (heap st ! b)) (heap st)
                in st\<lparr>heap := h, ss_inc_new_df := Some n\<rparr>)))"

section \<open>Predicates used to state properties\<close>




definition typed_column :: "pandas \<Rightarrow> nat \<Rightarrow> column \<Rightarrow> column" where
  \<comment> \<open>the column that the conversions of Home.py put in the place of a column\<close>
  "typed_column L n col = (case auto_convert_column L n col of Inl e \<Rightarrow> col | Inr (col', v) \<Rightarrow> col')"

section \<open>Properties of the schema reconciler\<close>

lemma coerce_column_name:
  "coerce_column L fam col = Inr col' \<Longrightarrow> col_name col' = col_name col"
  by (auto simp: coerce_column_def split: if_splits sum.splits)

lemma get_column_Some:
  "get_column df c = Some col \<Longrightarrow> col \<in> set df \<and> col_name col = c"
  unfolding get_column_def by (induction df) (auto split: if_splits)

lemma get_column_None:
  "get_column df c = None \<longleftrightarrow> c \<notin> set (columns df)"
  unfolding get_column_def columns_def by (induction df) auto

lemma columns_set_column:
  "col_name new = c \<Longrightarrow> columns (set_column c new df) = columns df"
  unfolding columns_def set_column_def by (induction df) auto

lemma coerce_loop_columns: "columns (coerce_loop L fam df) = columns df"
proof (induction fam arbitrary: df)
  case Nil
  show ?case by simp
next
  case (Cons p rest)
  obtain c f where p: "p = (c, f)" by (cases p)
  show ?case
    using Cons.IH
    by (auto simp: p columns_set_column dest!: get_column_Some coerce_column_name
        split: option.splits sum.splits)
qed

lemma coerce_loop_untouched:
  "i < length df \<Longrightarrow> col_name (df ! i) \<notin> fst ` set fam \<Longrightarrow> coerce_loop L fam df ! i = df ! i"
proof (induction fam arbitrary: df)
  case Nil
  show ?case by simp
next
  case (Cons p rest)
  obtain c f where p: "p = (c, f)" by (cases p)
  from Cons.prems have ne: "col_name (df ! i) \<noteq> c" and rest: "col_name (df ! i) \<notin> fst ` set rest"
    by (auto simp: p)
  have keep: "set_column c new df ! i = df ! i" for new
    using Cons.prems(1) ne by (simp add: set_column_def)
  have len: "length (set_column c new df) = length df" for new
    by (simp add: set_column_def)
  show ?case
    using Cons.IH[of df] Cons.IH[of "set_column c new df" for new] Cons.prems(1) rest keep len
    by (auto simp: p split: option.splits sum.splits)
qed

lemma distinct_name_unique:
  "distinct (columns df) \<Longrightarrow> a \<in> set df \<Longrightarrow> b \<in> set df \<Longrightarrow> col_name a = col_name b \<Longrightarrow> a = b"
  unfolding columns_def by (auto simp: distinct_map dest: inj_onD)

lemma coerce_loop_map:
  "distinct (columns df) \<Longrightarrow> distinct (map fst fam) \<Longrightarrow>
     coerce_loop L fam df = map (coerce_one L fam) df"
proof (induction fam arbitrary: df)
  case Nil
  show ?case by (simp add: coerce_one_def)
next
  case (Cons p rest)
  obtain c f where p: "p = (c, f)" by (cases p)
  from Cons.prems have dr: "distinct (map fst rest)" and cn: "c \<notin> fst ` set rest"
    by (auto simp: p)
  have none: "map_of rest c = None"
    using cn by (simp add: map_of_eq_None_iff)
  have other: "coerce_one L (p # rest) col = coerce_one L rest col" if "col_name col \<noteq> c" for col
    using that by (simp add: coerce_one_def p)
  show ?case
  proof (cases "get_column df c")
    case None
    then have "\<forall>col \<in> set df. col_name col \<noteq> c"
      by (auto simp: get_column_None columns_def)
    then have "map (coerce_one L (p # rest)) df = map (coerce_one L rest) df"
      by (auto simp: other)
    then show ?thesis
      using None Cons.IH[OF Cons.prems(1) dr] by (simp add: p)
  next
    case (Some col0)
    then have in0: "col0 \<in> set df" and nm0: "col_name col0 = c"
      by (auto dest: get_column_Some)
    have uniq: "col = col0" if "col \<in> set df" "col_name col = c" for col
      using distinct_name_unique[OF Cons.prems(1) that(1) in0] that(2) nm0 by simp
    show ?thesis
    proof (cases "coerce_column L f col0")
      case (Inl e)
      have "coerce_one L (p # rest) col = coerce_one L rest col" if "col \<in> set df" for col
      proof (cases "col_name col = c")
        case True
        then have "col = col0" using uniq that by simp
        then show ?thesis using Inl nm0 none by (simp add: coerce_one_def p)
      next
        case False
        then show ?thesis by (rule other)
      qed
      then have "map (coerce_one L (p # rest)) df = map (coerce_one L rest) df"
        by simp
      then show ?thesis
        using Some Inl Cons.IH[OF Cons.prems(1) dr] by (simp add: p)
    next
      case (Inr col')
      have nm': "col_name col' = c"
        using coerce_column_name[OF Inr] nm0 by simp
      have d': "distinct (columns (set_column c col' df))"
        using Cons.prems(1) nm' by (simp add: columns_set_column)
      have "coerce_one L (p # rest) col = coerce_one L rest (if col_name col = c then col' else col)"
        if "col \<in> set df" for col
      proof (cases "col_name col = c")
        case True
        then have "col = col0" using uniq that by simp
        then show ?thesis using Inr nm0 nm' none True by (simp add: coerce_one_def p)
      next
        case False
        then show ?thesis by (simp add: other)
      qed
      then have "map (coerce_one L (p # rest)) df = map (coerce_one L rest) (set_column c col' df)"
        by (simp add: set_column_def)
      then show ?thesis
        using Some Inr Cons.IH[OF d' dr] by (simp add: p)
    qed
  qed
qed

lemma coerce_to_schema_length: "length (coerce_to_schema L df fam) = length df"
  using coerce_loop_columns[of L fam df]
  unfolding coerce_to_schema_def columns_def by (metis length_map)

lemma astype_Int64_round0:
  assumes "\<forall>cell \<in> set cs. \<forall>x. f cell = Some x \<longrightarrow> int64_ok (round0 x)"
  shows "astype_Int64 (map (\<lambda>c. map_option (\<lambda>x. of_int (round0 x)) (f c)) cs)
         = Inr (map (\<lambda>c. case f c of None \<Rightarrow> NA | Some x \<Rightarrow> IntV (round0 x)) cs)"
proof -
  have "list_all (\<lambda>v. case v of None \<Rightarrow> True | Some x \<Rightarrow> is_whole x \<and> int64_ok \<lfloor>x\<rfloor>)
          (map (\<lambda>c. map_option (\<lambda>x. of_int (round0 x)) (f c)) cs)"
    using assms by (auto simp: list_all_iff is_whole_def split: option.splits)
  moreover have "map (\<lambda>v. case v of None \<Rightarrow> NA | Some x \<Rightarrow> IntV \<lfloor>x\<rfloor>)
                   (map (\<lambda>c. map_option (\<lambda>x. (of_int (round0 x) :: rat)) (f c)) cs)
                 = map (\<lambda>c. case f c of None \<Rightarrow> NA | Some x \<Rightarrow> IntV (round0 x)) cs"
    by (auto split: option.splits)
  ultimately show ?thesis
    unfolding astype_Int64_def by simp
qed

text \<open>
  C1. For a column whose family is \<open>int\<close>, the claim says that a cell whose value is not
  a whole number, such as \<open>12.7\<close>, coerces to null. The code rounds: each cell goes through
  the numeric normalizer of the page, the number is rounded to the nearest whole number (a
  half to the even one), and the column becomes \<open>Int64\<close>; \<open>12.7\<close> coerces to 13, and a cell
  is null only where the normalizer gives no number. The column is never float64. (The
  rounded values are taken to fit 64 bits.)
\<close>

theorem C1_coerce_int_rounds:
  assumes "distinct (columns df)" and "distinct (map fst fam)"
    and "map_of fam c = Some ''int''"
    and "get_column df c = Some col"
    and "\<forall>cell \<in> set (col_cells col). \<forall>x. to_numeric_resilient_inc L cell = Some x \<longrightarrow> int64_ok (round0 x)"
  shows "get_column (coerce_to_schema L df fam) c
         = Some (col\<lparr>col_dtype := Int64Dtype,
                     col_cells := map (\<lambda>cell. case to_numeric_resilient_inc L cell of
                                                None \<Rightarrow> NA | Some x \<Rightarrow> IntV (round0 x))
                                      (col_cells col)\<rparr>)"
proof -
  let ?col' = "col\<lparr>col_dtype := Int64Dtype,
                    col_cells := map (\<lambda>cell. case to_numeric_resilient_inc L cell of
                                               None \<Rightarrow> NA | Some x \<Rightarrow> IntV (round0 x))
                                     (col_cells col)\<rparr>"
  have cc: "coerce_column L ''int'' col = Inr ?col'"
    using astype_Int64_round0[OF assms(5)] by (simp add: coerce_column_def)
  have nm: "col_name col = c" and mem: "col \<in> set df"
    using get_column_Some[OF assms(4)] by simp_all
  have one: "coerce_one L fam col = ?col'"
    using cc assms(3) nm by (simp add: coerce_one_def)
  have eq: "coerce_to_schema L df fam = map (coerce_one L fam) df"
    unfolding coerce_to_schema_def by (rule coerce_loop_map[OF assms(1,2)])
  have names: "col_name (coerce_one L fam a) = col_name a" for a
    by (auto simp: coerce_one_def split: option.splits sum.splits dest: coerce_column_name)
  have "find (\<lambda>a. col_name a = c) (map (coerce_one L fam) xs) = Some (coerce_one L fam col)"
    if "find (\<lambda>a. col_name a = c) xs = Some col" for xs
    using that by (induction xs) (auto simp: names split: if_splits)
  then show ?thesis
    using assms(4) one eq by (simp add: get_column_def)
qed

theorem C1_coerce_int_rounds_witness:
  "get_column (coerce_to_schema plain
       [\<lparr>col_name = ''age'', col_dtype = Object, col_cells = [Str ''12.7'', Str ''12.5'', Str ''n/a'', NA]\<rparr>]
       [(''age'', ''int'')]) ''age''
   = Some \<lparr>col_name = ''age'', col_dtype = Int64Dtype, col_cells = [IntV 13, IntV 12, NA, NA]\<rparr>"
proof -
  let ?col = "\<lparr>col_name = ''age'', col_dtype = Object, col_cells = [Str ''12.7'', Str ''12.5'', Str ''n/a'', NA]\<rparr>"
  have v1: "to_numeric_resilient_inc plain (Str ''12.7'') = Some (127 / 10)"
    and v2: "to_numeric_resilient_inc plain (Str ''12.5'') = Some (25 / 2)"
    and v3: "to_numeric_resilient_inc plain (Str ''n/a'') = None"
    and v4: "to_numeric_resilient_inc plain NA = None"
    by code_simp+
  have r: "round0 (127 / 10) = 13" "round0 (25 / 2) = 12"
    by code_simp+
  have ok: "int64_ok 13" "int64_ok 12"
    by (simp_all add: int64_ok_def)
  have h1: "distinct (columns [?col])" by (simp add: columns_def)
  have h2: "distinct (map fst [(''age'', ''int'')])" by simp
  have h3: "map_of [(''age'', ''int'')] ''age'' = Some ''int''" by simp
  have h4: "get_column [?col] ''age'' = Some ?col" by (simp add: get_column_def)
  have h5: "\<forall>cell \<in> set (col_cells ?col). \<forall>x. to_numeric_resilient_inc plain cell = Some x \<longrightarrow> int64_ok (round0 x)"
  proof (intro ballI allI impI)
    fix cell x
    assume c: "cell \<in> set (col_cells ?col)" and s: "to_numeric_resilient_inc plain cell = Some x"
    from c have "cell = Str ''12.7'' \<or> cell = Str ''12.5'' \<or> cell = Str ''n/a'' \<or> cell = NA"
      by simp
    with s v1 v2 v3 v4 have "x = 127 / 10 \<or> x = 25 / 2"
      by (metis option.inject option.distinct(1))
    with r ok show "int64_ok (round0 x)"
      by metis
  qed
  show ?thesis
    using C1_coerce_int_rounds[OF h1 h2 h3 h4 h5] v1 v2 v3 v4 r by simp
qed

theorem C1_rounds_counterexample:
  "to_numeric_resilient_inc plain (Str ''12.7'') = Some (127 / 10)
   \<and> \<not> is_whole (127 / 10)
   \<and> coerce_to_schema plain
        [\<lparr>col_name = ''age'', col_dtype = Object, col_cells = [Str ''12.7'']\<rparr>]
        [(''age'', ''int'')]
      = [\<lparr>col_name = ''age'', col_dtype = Int64Dtype, col_cells = [IntV 13]\<rparr>]"
  by code_simp

text \<open>
  C2. A column of the input that the family map does not name is left as it is: same name,
  same dtype, same cells, at the same place. The claim says it is left typed as Text, which
  holds only if it was Text in the input: a column that \<open>read_csv\<close> typed \<open>int64\<close> stays
  \<open>int64\<close>, which the page shows as Numeric.
\<close>

theorem C2_unlisted_unchanged:
  assumes "i < length df" and "col_name (df ! i) \<notin> fst ` set fam"
  shows "length (coerce_to_schema L df fam) = length df
         \<and> coerce_to_schema L df fam ! i = df ! i"
  using coerce_loop_untouched[OF assms] coerce_to_schema_length[of L df fam]
  by (simp add: coerce_to_schema_def)

theorem C2_unlisted_unchanged_witness:
  "coerce_to_schema plain
     [\<lparr>col_name = ''age'', col_dtype = Object, col_cells = [Str ''40'']\<rparr>,
      \<lparr>col_name = ''note'', col_dtype = Object, col_cells = [Str ''7'']\<rparr>]
     [(''age'', ''int'')] ! 1
   = \<lparr>col_name = ''note'', col_dtype = Object, col_cells = [Str ''7'']\<rparr>"
proof -
  let ?df = "[\<lparr>col_name = ''age'', col_dtype = Object, col_cells = [Str ''40'']\<rparr>,
              \<lparr>col_name = ''note'', col_dtype = Object, col_cells = [Str ''7'']\<rparr>]"
  have h1: "1 < length ?df" by simp
  have h2: "col_name (?df ! 1) \<notin> fst ` set [(''age'', ''int'')]" by simp
  show ?thesis
    using C2_unlisted_unchanged[OF h1 h2, of plain] by simp
qed

theorem C2_unlisted_counterexample:
  "map (\<lambda>col. friendly_dtype (dtype_str (col_dtype col)))
     (coerce_to_schema plain
        [\<lparr>col_name = ''visits'', col_dtype = Int64np, col_cells = [IntV 1, IntV 2]\<rparr>]
        [(''age'', ''int'')])
   = [''Numeric'']"
  by code_simp

text \<open>
  C9. \<open>coerce_to_schema\<close> returns a table for every input: the model has no error result,
  since the loop catches what the coercion of a column raises. A table with columns of
  their own names and a dict as family map come out column by column: a column that the map
  does not name, or whose coercion raises, is the input column itself; every other column
  is its coercion.
\<close>

theorem C9_failure_keeps_column:
  assumes "distinct (columns df)" and "distinct (map fst fam)"
  shows "length (coerce_to_schema L df fam) = length df
         \<and> (\<forall>i < length df.
               coerce_to_schema L df fam ! i =
                 (case map_of fam (col_name (df ! i)) of
                    None \<Rightarrow> df ! i
                  | Some f \<Rightarrow> (case coerce_column L f (df ! i) of
                                 Inl e \<Rightarrow> df ! i
                               | Inr col' \<Rightarrow> col')))"
  using coerce_loop_map[OF assms, of L] coerce_to_schema_length[of L df fam]
  by (simp add: coerce_to_schema_def coerce_one_def)

theorem C9_failure_keeps_column_witness:
  "coerce_column plain ''int'' \<lparr>col_name = ''id'', col_dtype = Object, col_cells = [Str ''99999999999999999999'']\<rparr>
     = Inl CastError
   \<and> coerce_to_schema plain
       [\<lparr>col_name = ''id'', col_dtype = Object, col_cells = [Str ''99999999999999999999'']\<rparr>,
        \<lparr>col_name = ''ok'', col_dtype = Object, col_cells = [Str ''Yes'', Str ''maybe'']\<rparr>]
       [(''id'', ''int''), (''ok'', ''boolean'')]
     = [\<lparr>col_name = ''id'', col_dtype = Object, col_cells = [Str ''99999999999999999999'']\<rparr>,
        \<lparr>col_name = ''ok'', col_dtype = BooleanDtype, col_cells = [BoolV True, NA]\<rparr>]"
proof -
  let ?a = "\<lparr>col_name = ''id'', col_dtype = Object, col_cells = [Str ''99999999999999999999'']\<rparr>"
  let ?b = "\<lparr>col_name = ''ok'', col_dtype = Object, col_cells = [Str ''Yes'', Str ''maybe'']\<rparr>"
  let ?fam = "[(''id'', ''int''), (''ok'', ''boolean'')]"
  have h1: "distinct (columns [?a, ?b])" by (simp add: columns_def)
  have h2: "distinct (map fst ?fam)" by simp
  have ca: "coerce_column plain ''int'' ?a = Inl CastError"
    by code_simp
  have cb: "coerce_column plain ''boolean'' ?b
            = Inr \<lparr>col_name = ''ok'', col_dtype = BooleanDtype, col_cells = [BoolV True, NA]\<rparr>"
    by code_simp
  have all: "\<forall>i < length [?a, ?b].
               coerce_to_schema plain [?a, ?b] ?fam ! i =
                 (case map_of ?fam (col_name ([?a, ?b] ! i)) of
                    None \<Rightarrow> [?a, ?b] ! i
                  | Some f \<Rightarrow> (case coerce_column plain f ([?a, ?b] ! i) of
                                 Inl e \<Rightarrow> [?a, ?b] ! i
                               | Inr col' \<Rightarrow> col'))"
    and len: "length (coerce_to_schema plain [?a, ?b] ?fam) = length [?a, ?b]"
    using C9_failure_keeps_column[OF h1 h2, of plain] by blast+
  have i0: "coerce_to_schema plain [?a, ?b] ?fam ! 0 = ?a"
    using all[rule_format, of 0] ca by simp
  have i1: "coerce_to_schema plain [?a, ?b] ?fam ! 1
            = \<lparr>col_name = ''ok'', col_dtype = BooleanDtype, col_cells = [BoolV True, NA]\<rparr>"
    using all[rule_format, of 1] cb by simp
  have "coerce_to_schema plain [?a, ?b] ?fam
        = [coerce_to_schema plain [?a, ?b] ?fam ! 0, coerce_to_schema plain [?a, ?b] ?fam ! 1]"
    using len by (cases "coerce_to_schema plain [?a, ?b] ?fam" rule: list.exhaust;
                  cases "tl (coerce_to_schema plain [?a, ?b] ?fam)" rule: list.exhaust) auto
  then show ?thesis
    using i0 i1 ca by simp
qed

section \<open>Properties of the numeric normalizer\<close>

lemma endswith_percent_not_blank:
  "endswith s ''%'' \<Longrightarrow> blank_to_na s = Some s"
  by (auto simp: blank_to_na_def endswith_def)

text \<open>
  C6. For a cell whose stripped text ends with \<open>%\<close>, the normalizer of Home.py removes the
  currency signs, the commas and the percent signs, parses the rest, and divides the number
  by 100 (null when the rest does not parse). The normalizer of the incremental page, which
  the schema reconciler calls, removes the same signs and parses the rest, and does not
  divide: \<open>50%\<close> is 1/2 for the classifier and 50 for the reconciler.
\<close>

theorem C6_percent:
  assumes "endswith (strip (astype_str c)) ''%''"
  shows "to_numeric_resilient L True c =
           map_option (\<lambda>x. x / 100)
             (to_numeric L (Str (remove_chars ''%''
                (remove_chars [a_circumflex, pound, CHR ''$'', CHR '',''] (strip (astype_str c))))))
       \<and> to_numeric_resilient_inc L c =
           to_numeric L (Str (remove_chars ''%''
                (remove_chars [pound, CHR ''$'', CHR '',''] (strip (astype_str c)))))"
  using endswith_percent_not_blank[OF assms] assms
  by (simp add: to_numeric_resilient_def to_numeric_resilient_inc_def)

theorem C6_percent_witness:
  "endswith (strip (astype_str (Str ''50%''))) ''%''
   \<and> to_numeric_resilient plain True (Str ''50%'') = Some (1 / 2)
   \<and> to_numeric_resilient_inc plain (Str ''50%'') = Some 50"
proof -
  have h: "endswith (strip (astype_str (Str ''50%''))) ''%''"
    by code_simp
  have e1: "remove_chars ''%'' (remove_chars [a_circumflex, pound, CHR ''$'', CHR '','']
              (strip (astype_str (Str ''50%'')))) = ''50''"
    by code_simp
  have e2: "remove_chars ''%'' (remove_chars [pound, CHR ''$'', CHR '','']
              (strip (astype_str (Str ''50%'')))) = ''50''"
    by code_simp
  have v: "to_numeric plain (Str ''50'') = Some 50"
    by code_simp
  show ?thesis
    using C6_percent[OF h, of plain] h by (simp add: e1 e2 v)
qed

section \<open>Properties of the row differencer\<close>







lemma cumcount_from_replicate:
  "cumcount_from seen (replicate k x) = map (\<lambda>i. count_list seen x + i) [0..<k]"
proof (induction k arbitrary: seen)
  case 0
  show ?case by simp
next
  case (Suc k)
  have "map (\<lambda>i. count_list seen x + i) [0..<Suc k]
        = count_list seen x # map (\<lambda>i. count_list (x # seen) x + i) [0..<k]"
    by (simp add: upt_conv_Cons map_Suc_upt[symmetric] del: upt_Suc)
  then show ?case
    using Suc.IH[of "x # seen"] by simp
qed

lemma dup_keys_replicate: "dup_keys (replicate k x) = map (Pair x) [0..<k]"
proof -
  have "zip (replicate k x) (map (\<lambda>i. i) [0..<k]) = map (Pair x) [0..<k]"
    by (auto intro!: nth_equalityI)
  then show ?thesis
    by (simp add: dup_keys_def cumcount_def cumcount_from_replicate)
qed

lemma filter_ge_upt: "filter (\<lambda>i. \<not> i < k) [0..<m] = [k..<m]"
proof (induction m)
  case 0
  show ?case by simp
next
  case (Suc m)
  then show ?case by (cases "k \<le> m") auto
qed

lemma right_only_replicate:
  "right_only (dup_keys (replicate k x)) (dup_keys (replicate m x)) = map (Pair x) [k..<m]"
proof -
  have "filter (\<lambda>key. key \<notin> Pair x ` {0..<k}) (map (Pair x) [0..<m])
        = map (Pair x) (filter (\<lambda>i. \<not> i < k) [0..<m])"
    by (auto simp: filter_map comp_def intro!: arg_cong[where f="map (Pair x)"] filter_cong)
  then show ?thesis
    by (simp add: right_only_def dup_keys_replicate filter_ge_upt)
qed

lemma left_only_replicate:
  "left_only (dup_keys (replicate k x)) (dup_keys (replicate m x)) = map (Pair x) [m..<k]"
  using right_only_replicate[of m x k] by (simp add: left_only_def right_only_def)

lemma set_insort_str: "set (insort_str x ys) = insert x (set ys)"
  by (induction ys) auto

lemma set_sorted_strs: "set (sorted_strs xs) = set xs"
  unfolding sorted_strs_def by (induction xs) (auto simp: set_insort_str)

lemma set_common_cols: "set (common_cols base new) = set (columns base) \<inter> set (columns new)"
  by (auto simp: common_cols_def set_sorted_strs)

lemma normalize_for_rowdiff_Inr:
  assumes "set cols \<subseteq> set (columns df)"
  shows "normalize_for_rowdiff L df cols
         = Inr (map (\<lambda>c. map (normalize_cell L) (col_cells (the (get_column df c)))) cols)"
  using assms
proof (induction cols)
  case Nil
  show ?case by simp
next
  case (Cons c cols)
  from Cons.prems obtain col where "get_column df c = Some col"
    using get_column_None[of df c] by (cases "get_column df c") auto
  with Cons show ?case by simp
qed

lemma rows_of_replicate:
  "rows_of k (map (\<lambda>c. replicate k (f c)) cs) = replicate k (map f cs)"
  by (auto simp: rows_of_def intro!: nth_equalityI)

text \<open>
  C3. The differencer counts duplicates. When every row of the baseline is the same row,
  \<open>k\<close> times, and every row of the new table is that row, \<open>m\<close> times, and the two tables
  share a column, the added rows are the copies numbered \<open>k\<close> to \<open>m - 1\<close> and the removed
  rows the copies numbered \<open>m\<close> to \<open>k - 1\<close>: from 2 copies to 3, one row is added and none
  removed; from 3 copies to 1, two rows are removed.
\<close>

theorem C3_duplicates_counted:
  assumes "common_cols base new \<noteq> []"
    and "\<forall>col \<in> set base. col_cells col = replicate k (v (col_name col))"
    and "\<forall>col \<in> set new. col_cells col = replicate m (v (col_name col))"
  shows "row_changes L base new
         = Inr (RowDiff (map (Pair (map (\<lambda>c. normalize_cell L (v c)) (common_cols base new))) [k..<m])
                        (map (Pair (map (\<lambda>c. normalize_cell L (v c)) (common_cols base new))) [m..<k]))"
proof -
  let ?cc = "common_cols base new"
  let ?x = "map (\<lambda>c. normalize_cell L (v c)) ?cc"
  have sub: "set ?cc \<subseteq> set (columns base)" "set ?cc \<subseteq> set (columns new)"
    by (auto simp: set_common_cols)
  have rows: "n_rows df = j"
    if "df \<noteq> []" "\<forall>col \<in> set df. col_cells col = replicate j (v (col_name col))" for df j
    using that by (cases df) (auto simp: n_rows_def)
  have norm: "normalize_for_rowdiff L df ?cc = Inr (map (\<lambda>c. replicate j (normalize_cell L (v c))) ?cc)"
    if s: "set ?cc \<subseteq> set (columns df)"
      and r: "\<forall>col \<in> set df. col_cells col = replicate j (v (col_name col))" for df j
  proof -
    have "map (normalize_cell L) (col_cells (the (get_column df c))) = replicate j (normalize_cell L (v c))"
      if "c \<in> set ?cc" for c
    proof -
      from that s obtain col where g: "get_column df c = Some col"
        using get_column_None[of df c] by (cases "get_column df c") auto
      from get_column_Some[OF g] r have "col_cells col = replicate j (v c)"
        by auto
      with g show ?thesis by simp
    qed
    then show ?thesis
      by (simp add: normalize_for_rowdiff_Inr[OF s])
  qed
  from assms(1) sub have ne: "base \<noteq> []" "new \<noteq> []"
    by (auto simp: columns_def)
  have nb: "n_rows base = k" and nn: "n_rows new = m"
    using rows[OF ne(1) assms(2)] rows[OF ne(2) assms(3)] by simp_all
  show ?thesis
    using assms(1)
    by (simp add: row_changes_def Let_def norm[OF sub(1) assms(2)] norm[OF sub(2) assms(3)]
        nb nn rows_of_replicate right_only_replicate left_only_replicate)
qed

theorem C3_duplicates_counted_witness:
  "row_changes plain
     [\<lparr>col_name = ''name'', col_dtype = Object, col_cells = [Str ''ann'', Str ''ann'']\<rparr>]
     [\<lparr>col_name = ''name'', col_dtype = Object, col_cells = [Str ''ann'', Str ''ann'', Str ''ann'']\<rparr>]
   = Inr (RowDiff [([''ann''], 2)] [])
   \<and> row_changes plain
     [\<lparr>col_name = ''name'', col_dtype = Object, col_cells = [Str ''ann'', Str ''ann'', Str ''ann'']\<rparr>]
     [\<lparr>col_name = ''name'', col_dtype = Object, col_cells = [Str ''ann'']\<rparr>]
   = Inr (RowDiff [] [([''ann''], 1), ([''ann''], 2)])
   \<and> n_added (RowDiff [([''ann''], 2)] []) = 1
   \<and> n_removed (RowDiff [([''ann''], 2)] []) = 0
   \<and> n_removed (RowDiff [] [([''ann''], 1), ([''ann''], 2)]) = 2"
proof -
  let ?b2 = "[\<lparr>col_name = ''name'', col_dtype = Object, col_cells = [Str ''ann'', Str ''ann'']\<rparr>]"
  let ?b3 = "[\<lparr>col_name = ''name'', col_dtype = Object, col_cells = [Str ''ann'', Str ''ann'', Str ''ann'']\<rparr>]"
  let ?b1 = "[\<lparr>col_name = ''name'', col_dtype = Object, col_cells = [Str ''ann'']\<rparr>]"
  have cc: "common_cols ?b2 ?b3 = [''name'']" "common_cols ?b3 ?b1 = [''name'']"
    by code_simp+
  have nc: "normalize_cell plain (Str ''ann'') = ''ann''"
    by code_simp
  have u: "[2..<3] = [2::nat]" "[3..<2] = ([]::nat list)" "[Suc 0..<3] = [Suc 0, 2]"
    by (simp_all add: upt_rec)
  have r2: "replicate 2 (Str ''ann'') = [Str ''ann'', Str ''ann'']"
    and r3: "replicate 3 (Str ''ann'') = [Str ''ann'', Str ''ann'', Str ''ann'']"
    and r1: "replicate 1 (Str ''ann'') = [Str ''ann'']"
    by (simp_all add: numeral_2_eq_2 numeral_3_eq_3)
  have a: "row_changes plain ?b2 ?b3 = Inr (RowDiff [([''ann''], 2)] [])"
    using C3_duplicates_counted[of ?b2 ?b3 2 "\<lambda>_. Str ''ann''" 3 plain]
    by (simp add: cc nc u r2 r3)
  have b: "row_changes plain ?b3 ?b1 = Inr (RowDiff [] [([''ann''], 1), ([''ann''], 2)])"
    using C3_duplicates_counted[of ?b3 ?b1 3 "\<lambda>_. Str ''ann''" 1 plain]
    by (simp add: cc nc u r3 r1)
  from a b show ?thesis by (simp add: n_added_def n_removed_def)
qed







section \<open>Properties of the cell normalization\<close>

lemma strip_SENT: "strip SENT = SENT"
  by (simp add: SENT_def strip_def py_isspace_def)

lemma normalize_cell_NA: "normalize_cell L NA = SENT"
  by (simp add: normalize_cell_def to_datetime_def to_numeric_def astype_string_def strip_SENT)

lemma format_num_least_int64: "format_num (- 9223372036854775808) = ''-9223372036854775808''"
  by code_simp

lemma normalize_cell_NaT: "normalize_cell L NaT = ''-9223372036854775808''"
  by (simp add: normalize_cell_def to_datetime_def to_numeric_def format_num_least_int64)

lemma normalize_cell_text:
  assumes "to_datetime L c = None" and "to_numeric L c = None" and "c \<noteq> NA"
  shows "normalize_cell L c = (if strip (astype_str c) = [] then SENT else strip (astype_str c))"
proof (cases "c = NaT")
  case True
  with assms(2) show ?thesis by (simp add: to_numeric_def)
next
  case False
  with assms(3) have "astype_string c = Str (astype_str c)"
    by (cases c) (simp_all add: astype_string_def)
  with assms(1,2) show ?thesis
    by (simp add: normalize_cell_def)
qed

lemma is_digit_digit_char: "d < 10 \<Longrightarrow> is_digit (digit_char d)"
  by (simp add: is_digit_def digit_char_def)

lemma show_nat_digits: "list_all is_digit (show_nat n)"
proof (induction n rule: show_nat.induct)
  case (1 n)
  show ?case
  proof (cases "n < 10")
    case True
    then have "nat n < 10" by simp
    with True show ?thesis
      by (subst show_nat.simps) (simp add: is_digit_digit_char)
  next
    case False
    have "nat (n mod 10) < 10" by simp
    with False 1 show ?thesis
      by (subst show_nat.simps) (simp add: is_digit_digit_char)
  qed
qed

lemma show_nat_not_Nil: "show_nat n \<noteq> []"
  by (subst show_nat.simps) simp

lemma last_show_nat_digit: "is_digit (last (show_nat n))"
  using show_nat_digits[of n] show_nat_not_Nil[of n]
  by (simp add: list_all_iff)

lemma hd_show_nat_digit: "is_digit (hd (show_nat n))"
  using show_nat_digits[of n] show_nat_not_Nil[of n]
  by (simp add: list_all_iff)

lemma not_digit_chars:
  "\<not> is_digit CHR ''_''" "\<not> is_digit CHR ''.''" "\<not> is_digit CHR ''-''"
  by (simp_all add: is_digit_def)

lemma length_zero_pad: "length (zero_pad w s) = max w (length s)"
  by (simp add: zero_pad_def)

lemma strftime_length_aux:
  "19 \<le> length (zero_pad 4 a @ ''-'' @ zero_pad 2 b @ ''-'' @ zero_pad 2 c @ '' ''
                  @ zero_pad 2 d @ '':'' @ zero_pad 2 e @ '':'' @ zero_pad 2 f)"
  by (simp add: length_zero_pad)

lemma strftime_length: "19 \<le> length (strftime t)"
  unfolding strftime_def Let_def by (rule strftime_length_aux)

lemma strftime_not_Nil: "strftime t \<noteq> []"
  using strftime_length[of t] by auto

lemma strftime_not_SENT: "strftime t \<noteq> SENT"
  using strftime_length[of t] by (auto simp: SENT_def)

lemma rstrip_chars_prefix: "\<exists>z. s = rstrip_chars cls s @ z \<and> set z \<subseteq> set cls"
proof -
  have "rev s = takeWhile (\<lambda>c. c \<in> set cls) (rev s) @ dropWhile (\<lambda>c. c \<in> set cls) (rev s)"
    by simp
  then have "s = rev (dropWhile (\<lambda>c. c \<in> set cls) (rev s)) @ rev (takeWhile (\<lambda>c. c \<in> set cls) (rev s))"
    by (metis rev_append rev_rev_ident)
  moreover have "set (rev (takeWhile (\<lambda>c. c \<in> set cls) (rev s))) \<subseteq> set cls"
    by (auto dest: set_takeWhileD)
  ultimately show ?thesis
    unfolding rstrip_chars_def by blast
qed

lemma rstrip_chars_not_Nil:
  assumes "c \<in> set s" and "c \<notin> set cls"
  shows "rstrip_chars cls s \<noteq> [] \<and> hd (rstrip_chars cls s) = hd s"
proof -
  obtain z where z: "s = rstrip_chars cls s @ z" "set z \<subseteq> set cls"
    using rstrip_chars_prefix by blast
  have ne: "rstrip_chars cls s \<noteq> []"
  proof
    assume "rstrip_chars cls s = []"
    with z have "set s \<subseteq> set cls" by simp
    with assms show False by auto
  qed
  moreover from ne z(1) have "hd s = hd (rstrip_chars cls s)"
    by (metis hd_append2)
  ultimately show ?thesis by simp
qed

lemma rstrip_chars_subset: "set (rstrip_chars cls s) \<subseteq> set s"
  unfolding rstrip_chars_def by (auto dest: set_dropWhileD)

lemma fmt6_shape:
  obtains sg a b where "fmt6 x = sg @ show_nat a @ ''.'' @ zero_pad 6 (show_nat b)"
    and "sg = ''-'' \<or> sg = []"
proof -
  have "fmt6 x = (if x < 0 then ''-'' else []) @ show_nat (round0 (\<bar>x\<bar> * 1000000) div 1000000)
                 @ ''.'' @ zero_pad 6 (show_nat (round0 (\<bar>x\<bar> * 1000000) mod 1000000))"
    unfolding fmt6_def Let_def by (rule refl)
  moreover have "(if x < 0 then ''-'' else []) = ''-'' \<or> (if x < 0 then ''-'' else []) = []"
    by simp
  ultimately show thesis
    using that by blast
qed

lemma set_zero_pad: "set (zero_pad w t) \<subseteq> insert CHR ''0'' (set t)"
  by (auto simp: zero_pad_def)

lemma underscore_not_in_show_nat: "CHR ''_'' \<notin> set (show_nat n)"
  using show_nat_digits[of n] not_digit_chars(1) by (auto simp: list_all_iff)

lemma decimal_shape_chars:
  assumes "s = sg @ show_nat a @ ''.'' @ zero_pad 6 (show_nat b)" and "sg = ''-'' \<or> sg = []"
  shows "CHR ''_'' \<notin> set s" and "CHR ''.'' \<in> set s" and "s \<noteq> []" and "hd s \<noteq> CHR ''.''"
proof -
  have p: "CHR ''_'' \<notin> set (zero_pad 6 (show_nat b))"
    using set_zero_pad[of 6 "show_nat b"] underscore_not_in_show_nat[of b] by auto
  have g: "CHR ''_'' \<notin> set sg"
    using assms(2) by auto
  show "CHR ''_'' \<notin> set s"
    unfolding assms(1) using p g underscore_not_in_show_nat[of a] by simp
  show "CHR ''.'' \<in> set s"
    unfolding assms(1) by simp
  show "s \<noteq> []"
    unfolding assms(1) by simp
  have "hd (show_nat a @ t) = hd (show_nat a)" for t
    using show_nat_not_Nil[of a] by simp
  then have "hd s = CHR ''-'' \<or> hd s = hd (show_nat a)"
    unfolding assms(1) using assms(2) by auto
  then show "hd s \<noteq> CHR ''.''"
    using hd_show_nat_digit[of a] not_digit_chars(2) by auto
qed

lemma format_num_not_Nil: "format_num x \<noteq> []"
proof -
  obtain sg a b where sh: "fmt6 x = sg @ show_nat a @ ''.'' @ zero_pad 6 (show_nat b)"
      "sg = ''-'' \<or> sg = []"
    by (rule fmt6_shape)
  have dot: "CHR ''.'' \<in> set (fmt6 x)" and hd: "hd (fmt6 x) \<noteq> CHR ''.''"
    using decimal_shape_chars[OF sh] by simp_all
  have "CHR ''.'' \<notin> set ''0''"
    by simp
  from rstrip_chars_not_Nil[OF dot this]
  have ne: "rstrip_chars ''0'' (fmt6 x) \<noteq> []" and h: "hd (rstrip_chars ''0'' (fmt6 x)) = hd (fmt6 x)"
    by simp_all
  have "hd (rstrip_chars ''0'' (fmt6 x)) \<in> set (rstrip_chars ''0'' (fmt6 x))"
    using ne by simp
  moreover have "hd (rstrip_chars ''0'' (fmt6 x)) \<notin> set ''.''"
    using h hd by simp
  ultimately show ?thesis
    using rstrip_chars_not_Nil unfolding format_num_def by blast
qed

lemma format_num_not_SENT: "format_num x \<noteq> SENT"
proof
  assume "format_num x = SENT"
  then have "CHR ''_'' \<in> set (format_num x)"
    by (simp add: SENT_def)
  then have u: "CHR ''_'' \<in> set (fmt6 x)"
    using rstrip_chars_subset unfolding format_num_def by blast
  obtain sg a b where sh: "fmt6 x = sg @ show_nat a @ ''.'' @ zero_pad 6 (show_nat b)"
      "sg = ''-'' \<or> sg = []"
    by (rule fmt6_shape)
  from decimal_shape_chars(1)[OF sh] u show False
    by simp
qed

lemma normalize_cell_parsed_not_SENT:
  assumes "to_datetime L c \<noteq> None \<or> to_numeric L c \<noteq> None"
  shows "normalize_cell L c \<noteq> SENT"
  using assms strftime_not_Nil strftime_not_SENT format_num_not_Nil format_num_not_SENT
  by (auto simp: normalize_cell_def split: option.splits)

text \<open>
  C4. A missing cell gets the key \<open>__NA__\<close>, except the \<open>NaT\<close> of a date column, whose key
  is the number \<open>-9223372036854775808\<close>. The token is not reserved: a cell other than the
  missing cell gets the key \<open>__NA__\<close> exactly when it is read neither as a date nor as a
  number and its stripped text is empty or is \<open>__NA__\<close> itself. So a missing cell and the
  text \<open>__NA__\<close> have the same key.
\<close>

theorem C4_sentinel_shared:
  assumes "c \<noteq> NA"
  shows "normalize_cell L NA = SENT
         \<and> normalize_cell L NaT = ''-9223372036854775808''
         \<and> (normalize_cell L c = normalize_cell L NA \<longleftrightarrow>
              to_datetime L c = None \<and> to_numeric L c = None
              \<and> (strip (astype_str c) = [] \<or> strip (astype_str c) = SENT))"
proof (cases "to_datetime L c = None \<and> to_numeric L c = None")
  case True
  then show ?thesis
    using normalize_cell_text[OF _ _ assms, of L]
    by (simp add: normalize_cell_NA normalize_cell_NaT)
next
  case False
  then have "normalize_cell L c \<noteq> SENT"
    using normalize_cell_parsed_not_SENT[of L c] by blast
  with False show ?thesis
    by (auto simp: normalize_cell_NA normalize_cell_NaT)
qed

theorem C4_sentinel_shared_witness:
  "Str ''__NA__'' \<noteq> NA
   \<and> normalize_cell plain NA = ''__NA__''
   \<and> normalize_cell plain NaT = ''-9223372036854775808''
   \<and> normalize_cell plain (Str ''__NA__'') = normalize_cell plain NA
   \<and> normalize_cell plain (Str ''n/a'') \<noteq> normalize_cell plain NA"
proof -
  have a: "to_datetime plain (Str ''__NA__'') = None" "to_numeric plain (Str ''__NA__'') = None"
      "strip (astype_str (Str ''__NA__'')) = SENT"
    by code_simp+
  have b: "strip (astype_str (Str ''n/a'')) = ''n/a''"
    by code_simp
  have c: "Str ''__NA__'' \<noteq> NA" "Str ''n/a'' \<noteq> NA"
    by simp_all
  from C4_sentinel_shared[OF c(1), of plain] a
  have x: "normalize_cell plain NA = SENT"
      "normalize_cell plain NaT = ''-9223372036854775808''"
      "normalize_cell plain (Str ''__NA__'') = normalize_cell plain NA"
    by simp_all
  have y: "normalize_cell plain (Str ''n/a'') \<noteq> normalize_cell plain NA"
    using C4_sentinel_shared[OF c(2), of plain] b by (auto simp: SENT_def)
  from x(1) have z: "normalize_cell plain NA = ''__NA__''"
    by (simp add: SENT_def)
  from c(1) z x(2,3) y show ?thesis
    by blast
qed

theorem C4_sentinel_counterexample:
  "normalize_cell plain NA = normalize_cell plain (Str ''__NA__'')"
  by code_simp









section \<open>Properties of the type classifier\<close>

lemma blank_not_parsed: "\<not> nonblank c \<Longrightarrow> to_numeric_resilient L p c = None"
  by (simp add: nonblank_def to_numeric_resilient_def)

lemma rule_category_not_object:
  "col_dtype col \<noteq> Object \<Longrightarrow> rule_category n col = (col, [])"
  by (simp add: rule_category_def)

lemma rule_category_dtype:
  "col_dtype col = Object \<Longrightarrow>
     col_dtype (fst (rule_category n col)) = Object \<or> col_dtype (fst (rule_category n col)) = Category"
  by (simp add: rule_category_def)

lemma parsed_rate_iff:
  "((9 / 10 :: rat) \<le> (if 0 < n then of_nat k / of_nat n else 0)) = rate_ge k n (9 / 10)"
  by (simp add: rate_ge_def)

lemma astype_Int64_whole:
  assumes "list_all (\<lambda>c. case f c of None \<Rightarrow> False | Some x \<Rightarrow> is_whole x) (filter P cs)"
    and "list_all (\<lambda>c. case f c of None \<Rightarrow> True | Some x \<Rightarrow> int64_ok \<lfloor>x\<rfloor>) (filter P cs)"
    and "\<And>c. \<not> P c \<Longrightarrow> f c = None"
  shows "astype_Int64 (map f cs) = Inr (map (\<lambda>c. case f c of None \<Rightarrow> NA | Some x \<Rightarrow> IntV \<lfloor>x\<rfloor>) cs)"
proof -
  have "case f c of None \<Rightarrow> True | Some x \<Rightarrow> is_whole x \<and> int64_ok \<lfloor>x\<rfloor>" if "c \<in> set cs" for c
  proof (cases "P c")
    case True
    with that assms(1,2) show ?thesis
      by (auto simp: list_all_iff split: option.splits)
  next
    case False
    then show ?thesis by (simp add: assms(3))
  qed
  then have "list_all (\<lambda>v. case v of None \<Rightarrow> True | Some x \<Rightarrow> is_whole x \<and> int64_ok \<lfloor>x\<rfloor>) (map f cs)"
    by (simp add: list_all_iff)
  then show ?thesis
    by (simp add: astype_Int64_def comp_def)
qed

text \<open>
  C5. Take a text column on which the date rule and the boolean rule do not fire. The
  numeric rule has its evidence when at least 90% of the filled cells parse and the filled
  cells are at least 5% of the rows. With the evidence, the column becomes \<open>Int64\<close> when
  every filled cell parses to a whole number (taken to fit 64 bits), and \<open>float64\<close> when some
  filled cell does not parse or is not whole: the code tests \<open>num[nonblank] % 1 == 0\<close>, which
  is false on the \<open>NaN\<close> of a filled cell that did not parse. So a column of whole numbers
  and one unparsed cell among twenty is \<open>float64\<close>, where the claim says Integer. Without the
  evidence the column stays text or becomes a category, never a number.
\<close>

theorem C5_numeric_rule:
  fixes L :: pandas and col :: column and n :: nat
  defines "num \<equiv> to_numeric_resilient L True"
    and "filled \<equiv> filter nonblank (col_cells col)"
  defines "evidence \<equiv>
             rate_ge (count_where (\<lambda>c. num c \<noteq> None) filled) (length filled) (9 / 10)
             \<and> rate_ge (length filled) (length (col_cells col)) (5 / 100)"
  assumes "col_dtype col = Object"
    and "rule_datetime L col = (col, [])"
    and "rule_bool col = (col, [])"
  shows "(evidence \<and> list_all (\<lambda>c. case num c of None \<Rightarrow> False | Some x \<Rightarrow> is_whole x) filled
            \<and> list_all (\<lambda>c. case num c of None \<Rightarrow> True | Some x \<Rightarrow> int64_ok \<lfloor>x\<rfloor>) filled
          \<longrightarrow> auto_convert_column L n col
                = Inr (col\<lparr>col_dtype := Int64Dtype,
                           col_cells := map (\<lambda>c. case num c of None \<Rightarrow> NA | Some x \<Rightarrow> IntV \<lfloor>x\<rfloor>)
                                            (col_cells col)\<rparr>,
                       [(col_name col, ''Int64'')]))
       \<and> (evidence \<and> \<not> list_all (\<lambda>c. case num c of None \<Rightarrow> False | Some x \<Rightarrow> is_whole x) filled
          \<longrightarrow> auto_convert_column L n col
                = Inr (col\<lparr>col_dtype := Float64,
                           col_cells := map (\<lambda>c. case num c of None \<Rightarrow> NA | Some x \<Rightarrow> FloatV x)
                                            (col_cells col)\<rparr>,
                       [(col_name col, ''float64'')]))
       \<and> (\<not> evidence
          \<longrightarrow> (\<exists>col' v. auto_convert_column L n col = Inr (col', v)
                  \<and> col_cells col' = col_cells col
                  \<and> (col_dtype col' = Object \<or> col_dtype col' = Category)))"
proof (intro conjI impI)
  have ac: "auto_convert_column L n col =
              (case rule_numeric L col of
                 Inl e \<Rightarrow> Inl e
               | Inr (c3, v3) \<Rightarrow> (let (c4, v4) = rule_category n c3 in Inr (c4, v3 @ v4)))"
    using assms(5,6) by (simp add: auto_convert_column_def split: sum.splits prod.splits)
  have e: "evidence =
             (9 / 10 \<le> (if 0 < length filled
                          then of_nat (count_where (\<lambda>c. num c \<noteq> None) filled) / of_nat (length filled)
                          else (0 :: rat))
              \<and> rate_ge (length filled) (length (col_cells col)) (5 / 100))"
    unfolding evidence_def parsed_rate_iff by (rule refl)
  have rn: "rule_numeric L col =
              (if evidence
               then (if list_all (\<lambda>c. case num c of None \<Rightarrow> False | Some x \<Rightarrow> is_whole x) filled
                     then (case astype_Int64 (map num (col_cells col)) of
                             Inl e \<Rightarrow> Inl e
                           | Inr ints \<Rightarrow> Inr (col\<lparr>col_dtype := Int64Dtype, col_cells := ints\<rparr>,
                                             [(col_name col, ''Int64'')]))
                     else Inr (col\<lparr>col_dtype := Float64,
                                   col_cells := astype_float64 (map num (col_cells col))\<rparr>,
                               [(col_name col, ''float64'')]))
               else Inr (col, []))"
    unfolding e unfolding rule_numeric_def Let_def num_def filled_def
    by (simp only: assms(4) if_True simp_thms)
  {
    assume a: "evidence \<and> list_all (\<lambda>c. case num c of None \<Rightarrow> False | Some x \<Rightarrow> is_whole x) filled
            \<and> list_all (\<lambda>c. case num c of None \<Rightarrow> True | Some x \<Rightarrow> int64_ok \<lfloor>x\<rfloor>) filled"
    have cast: "astype_Int64 (map num (col_cells col))
                = Inr (map (\<lambda>c. case num c of None \<Rightarrow> NA | Some x \<Rightarrow> IntV \<lfloor>x\<rfloor>) (col_cells col))"
    proof (rule astype_Int64_whole[where P = nonblank])
      show "list_all (\<lambda>c. case num c of None \<Rightarrow> False | Some x \<Rightarrow> is_whole x)
              (filter nonblank (col_cells col))"
        using a by (simp add: filled_def)
      show "list_all (\<lambda>c. case num c of None \<Rightarrow> True | Some x \<Rightarrow> int64_ok \<lfloor>x\<rfloor>)
              (filter nonblank (col_cells col))"
        using a by (simp add: filled_def)
      show "num c = None" if "\<not> nonblank c" for c
        using that by (simp add: num_def blank_not_parsed)
    qed
    have "rule_numeric L col
          = Inr (col\<lparr>col_dtype := Int64Dtype,
                     col_cells := map (\<lambda>c. case num c of None \<Rightarrow> NA | Some x \<Rightarrow> IntV \<lfloor>x\<rfloor>)
                                      (col_cells col)\<rparr>,
                 [(col_name col, ''Int64'')])"
      using a cast by (simp add: rn)
    then show "auto_convert_column L n col
                = Inr (col\<lparr>col_dtype := Int64Dtype,
                           col_cells := map (\<lambda>c. case num c of None \<Rightarrow> NA | Some x \<Rightarrow> IntV \<lfloor>x\<rfloor>)
                                            (col_cells col)\<rparr>,
                       [(col_name col, ''Int64'')])"
      by (simp add: ac rule_category_not_object)
  }
  {
    assume a: "evidence \<and> \<not> list_all (\<lambda>c. case num c of None \<Rightarrow> False | Some x \<Rightarrow> is_whole x) filled"
    have "rule_numeric L col
          = Inr (col\<lparr>col_dtype := Float64,
                     col_cells := map (\<lambda>c. case num c of None \<Rightarrow> NA | Some x \<Rightarrow> FloatV x)
                                      (col_cells col)\<rparr>,
                 [(col_name col, ''float64'')])"
      using a by (simp add: rn astype_float64_def comp_def)
    then show "auto_convert_column L n col
                = Inr (col\<lparr>col_dtype := Float64,
                           col_cells := map (\<lambda>c. case num c of None \<Rightarrow> NA | Some x \<Rightarrow> FloatV x)
                                            (col_cells col)\<rparr>,
                       [(col_name col, ''float64'')])"
      by (simp add: ac rule_category_not_object)
  }
  {
    assume a: "\<not> evidence"
    have rn: "rule_numeric L col = Inr (col, [])"
      using a by (simp add: rn)
    have "auto_convert_column L n col = Inr (rule_category n col)"
      by (simp add: ac rn split: prod.splits)
    moreover have "col_cells (fst (rule_category n col)) = col_cells col"
      by (simp add: rule_category_def)
    ultimately show "\<exists>col' v. auto_convert_column L n col = Inr (col', v)
                  \<and> col_cells col' = col_cells col
                  \<and> (col_dtype col' = Object \<or> col_dtype col' = Category)"
      using rule_category_dtype[OF assms(4), of n]
      by (cases "rule_category n col") auto
  }
qed

theorem C5_numeric_rule_witness:
  "auto_convert_column plain 4
     \<lparr>col_name = ''price'', col_dtype = Object,
      col_cells = [Str (pound # ''1,000''), Str (pound # ''2,000''), Str ''3000'', NA]\<rparr>
   = Inr (\<lparr>col_name = ''price'', col_dtype = Int64Dtype,
           col_cells = [IntV 1000, IntV 2000, IntV 3000, NA]\<rparr>, [(''price'', ''Int64'')])
   \<and> auto_convert_column plain 3
     \<lparr>col_name = ''rate'', col_dtype = Object, col_cells = [Str ''1.5'', Str ''2'', Str ''50%'']\<rparr>
   = Inr (\<lparr>col_name = ''rate'', col_dtype = Float64,
           col_cells = [FloatV (3 / 2), FloatV 2, FloatV (1 / 2)]\<rparr>, [(''rate'', ''float64'')])
   \<and> (\<exists>col' v. auto_convert_column plain 3
         \<lparr>col_name = ''code'', col_dtype = Object, col_cells = [Str ''7'', Str ''x'', Str ''y'']\<rparr>
        = Inr (col', v) \<and> (col_dtype col' = Object \<or> col_dtype col' = Category))"
proof -
  let ?a = "\<lparr>col_name = ''price'', col_dtype = Object,
             col_cells = [Str (pound # ''1,000''), Str (pound # ''2,000''), Str ''3000'', NA]\<rparr>"
  let ?b = "\<lparr>col_name = ''rate'', col_dtype = Object, col_cells = [Str ''1.5'', Str ''2'', Str ''50%'']\<rparr>"
  let ?c = "\<lparr>col_name = ''code'', col_dtype = Object, col_cells = [Str ''7'', Str ''x'', Str ''y'']\<rparr>"
  let ?num = "to_numeric_resilient plain True"
  have a1: "col_dtype ?a = Object" and a2: "rule_datetime plain ?a = (?a, [])"
    and a3: "rule_bool ?a = (?a, [])"
    by code_simp+
  have a4: "rate_ge (count_where (\<lambda>c. ?num c \<noteq> None) (filter nonblank (col_cells ?a)))
              (length (filter nonblank (col_cells ?a))) (9 / 10)
            \<and> rate_ge (length (filter nonblank (col_cells ?a))) (length (col_cells ?a)) (5 / 100)"
    by code_simp
  have a5: "list_all (\<lambda>c. case ?num c of None \<Rightarrow> False | Some x \<Rightarrow> is_whole x)
              (filter nonblank (col_cells ?a))"
    by code_simp
  have a6: "list_all (\<lambda>c. case ?num c of None \<Rightarrow> True | Some x \<Rightarrow> int64_ok \<lfloor>x\<rfloor>)
              (filter nonblank (col_cells ?a))"
    by code_simp
  have a7: "map (\<lambda>c. case ?num c of None \<Rightarrow> NA | Some x \<Rightarrow> IntV \<lfloor>x\<rfloor>) (col_cells ?a)
            = [IntV 1000, IntV 2000, IntV 3000, NA]"
    by code_simp
  have ra: "auto_convert_column plain 4 ?a
            = Inr (\<lparr>col_name = ''price'', col_dtype = Int64Dtype,
                    col_cells = [IntV 1000, IntV 2000, IntV 3000, NA]\<rparr>, [(''price'', ''Int64'')])"
    using C5_numeric_rule[OF a1 a2 a3, of 4] a4 a5 a6 a7 by simp
  have b1: "col_dtype ?b = Object" and b2: "rule_datetime plain ?b = (?b, [])"
    and b3: "rule_bool ?b = (?b, [])"
    by code_simp+
  have b4: "rate_ge (count_where (\<lambda>c. ?num c \<noteq> None) (filter nonblank (col_cells ?b)))
              (length (filter nonblank (col_cells ?b))) (9 / 10)
            \<and> rate_ge (length (filter nonblank (col_cells ?b))) (length (col_cells ?b)) (5 / 100)"
    by code_simp
  have b5: "\<not> list_all (\<lambda>c. case ?num c of None \<Rightarrow> False | Some x \<Rightarrow> is_whole x)
              (filter nonblank (col_cells ?b))"
    by code_simp
  have b7: "map (\<lambda>c. case ?num c of None \<Rightarrow> NA | Some x \<Rightarrow> FloatV x) (col_cells ?b)
            = [FloatV (3 / 2), FloatV 2, FloatV (1 / 2)]"
    by code_simp
  have rb: "auto_convert_column plain 3 ?b
            = Inr (\<lparr>col_name = ''rate'', col_dtype = Float64,
                    col_cells = [FloatV (3 / 2), FloatV 2, FloatV (1 / 2)]\<rparr>, [(''rate'', ''float64'')])"
    using C5_numeric_rule[OF b1 b2 b3, of 3] b4 b5 b7 by simp
  have c1: "col_dtype ?c = Object" and c2: "rule_datetime plain ?c = (?c, [])"
    and c3: "rule_bool ?c = (?c, [])"
    by code_simp+
  have c4: "\<not> (rate_ge (count_where (\<lambda>c. ?num c \<noteq> None) (filter nonblank (col_cells ?c)))
              (length (filter nonblank (col_cells ?c))) (9 / 10)
            \<and> rate_ge (length (filter nonblank (col_cells ?c))) (length (col_cells ?c)) (5 / 100))"
    by code_simp
  have rc: "\<exists>col' v. auto_convert_column plain 3 ?c = Inr (col', v)
              \<and> (col_dtype col' = Object \<or> col_dtype col' = Category)"
    using C5_numeric_rule[OF c1 c2 c3, of 3] c4 by blast
  from ra rb rc show ?thesis
    by blast
qed

theorem C5_unparsed_cell_counterexample:
  "rule_datetime plain
     \<lparr>col_name = ''qty'', col_dtype = Object,
      col_cells = map Str [''12'', ''7'', ''30'', ''4'', ''18'', ''25'', ''9'', ''41'', ''16'', ''3'',
                           ''22'', ''8'', ''35'', ''11'', ''6'', ''27'', ''14'', ''2'', ''19'', ''x'']\<rparr>
   = (\<lparr>col_name = ''qty'', col_dtype = Object,
      col_cells = map Str [''12'', ''7'', ''30'', ''4'', ''18'', ''25'', ''9'', ''41'', ''16'', ''3'',
                           ''22'', ''8'', ''35'', ''11'', ''6'', ''27'', ''14'', ''2'', ''19'', ''x'']\<rparr>, [])
   \<and> rule_bool
     \<lparr>col_name = ''qty'', col_dtype = Object,
      col_cells = map Str [''12'', ''7'', ''30'', ''4'', ''18'', ''25'', ''9'', ''41'', ''16'', ''3'',
                           ''22'', ''8'', ''35'', ''11'', ''6'', ''27'', ''14'', ''2'', ''19'', ''x'']\<rparr>
   = (\<lparr>col_name = ''qty'', col_dtype = Object,
      col_cells = map Str [''12'', ''7'', ''30'', ''4'', ''18'', ''25'', ''9'', ''41'', ''16'', ''3'',
                           ''22'', ''8'', ''35'', ''11'', ''6'', ''27'', ''14'', ''2'', ''19'', ''x'']\<rparr>, [])
   \<and> map (to_numeric_resilient plain True)
       (map Str [''12'', ''7'', ''30'', ''4'', ''18'', ''25'', ''9'', ''41'', ''16'', ''3'',
                 ''22'', ''8'', ''35'', ''11'', ''6'', ''27'', ''14'', ''2'', ''19'', ''x''])
     = [Some 12, Some 7, Some 30, Some 4, Some 18, Some 25, Some 9, Some 41, Some 16,
        Some 3, Some 22, Some 8, Some 35, Some 11, Some 6, Some 27, Some 14, Some 2,
        Some 19, None]
   \<and> auto_convert_column plain 20
     \<lparr>col_name = ''qty'', col_dtype = Object,
      col_cells = map Str [''12'', ''7'', ''30'', ''4'', ''18'', ''25'', ''9'', ''41'', ''16'', ''3'',
                           ''22'', ''8'', ''35'', ''11'', ''6'', ''27'', ''14'', ''2'', ''19'', ''x'']\<rparr>
   = Inr (\<lparr>col_name = ''qty'', col_dtype = Float64,
           col_cells = [FloatV 12, FloatV 7, FloatV 30, FloatV 4, FloatV 18, FloatV 25, FloatV 9, FloatV
                        41, FloatV 16, FloatV 3, FloatV 22, FloatV 8, FloatV 35, FloatV 11, FloatV 6,
                        FloatV 27, FloatV 14, FloatV 2, FloatV 19, NA]\<rparr>,
          [(''qty'', ''float64'')])"
  by code_simp

section \<open>Properties of the session and its tables\<close>

lemma rule_datetime_shape:
  "col_name (fst (rule_datetime L col)) = col_name col
   \<and> length (col_cells (fst (rule_datetime L col))) = length (col_cells col)"
  by (simp add: rule_datetime_def Let_def)

lemma rule_bool_shape:
  "col_name (fst (rule_bool col)) = col_name col
   \<and> length (col_cells (fst (rule_bool col))) = length (col_cells col)"
  by (simp add: rule_bool_def Let_def)

lemma astype_Int64_length: "astype_Int64 xs = Inr ys \<Longrightarrow> length ys = length xs"
  by (auto simp: astype_Int64_def split: if_splits)

lemma rule_numeric_shape:
  "rule_numeric L col = Inr (col', v) \<Longrightarrow>
     col_name col' = col_name col \<and> length (col_cells col') = length (col_cells col)"
  by (auto simp: rule_numeric_def Let_def astype_float64_def
      split: if_splits sum.splits dest: astype_Int64_length)

lemma rule_category_shape:
  "col_name (fst (rule_category n col)) = col_name col
   \<and> length (col_cells (fst (rule_category n col))) = length (col_cells col)"
  by (simp add: rule_category_def)

lemma auto_convert_column_shape:
  assumes "auto_convert_column L n col = Inr (col', v)"
  shows "col_name col' = col_name col \<and> length (col_cells col') = length (col_cells col)"
proof -
  obtain c1 v1 where r1: "rule_datetime L col = (c1, v1)" by (cases "rule_datetime L col")
  obtain c2 v2 where r2: "rule_bool c1 = (c2, v2)" by (cases "rule_bool c1")
  from assms r1 r2 obtain c3 v3 where r3: "rule_numeric L c2 = Inr (c3, v3)"
    by (cases "rule_numeric L c2") (auto simp: auto_convert_column_def)
  obtain c4 v4 where r4: "rule_category n c3 = (c4, v4)" by (cases "rule_category n c3")
  from assms r1 r2 r3 r4 have "col' = c4"
    by (simp add: auto_convert_column_def)
  then show ?thesis
    using rule_datetime_shape[of L col] rule_bool_shape[of c1] rule_numeric_shape[OF r3]
      rule_category_shape[of n c3] r1 r2 r4
    by simp
qed

lemma n_rows_set_column:
  assumes "get_column df c = Some col" and "length (col_cells col') = length (col_cells col)"
  shows "n_rows (set_column c col' df) = n_rows df"
  using assms by (cases df) (auto simp: n_rows_def set_column_def get_column_def split: if_splits)

lemma auto_convert_loop_in_place:
  assumes "r < length h" and "distinct (columns (h ! r))"
    and "set cs \<subseteq> set (columns (h ! r))" and "distinct cs"
    and "auto_convert_loop L cs r h v0 = Inr (h', v')"
  shows "h' = h[r := map (\<lambda>col. if col_name col \<in> set cs
                                then typed_column L (n_rows (h ! r)) col else col) (h ! r)]"
  using assms
proof (induction cs arbitrary: h v0)
  case Nil
  then show ?case by (simp add: list_update_same_conv)
next
  case (Cons c cs)
  let ?t = "h ! r"
  let ?n = "n_rows ?t"
  from Cons.prems(3) obtain col where g: "get_column ?t c = Some col"
    using get_column_None[of ?t c] by (cases "get_column ?t c") auto
  from Cons.prems(5) g obtain col' v where
    ac: "auto_convert_column L ?n col = Inr (col', v)"
    and rest: "auto_convert_loop L cs r (h[r := set_column c col' ?t]) (v0 @ v) = Inr (h', v')"
    by (cases "auto_convert_column L ?n col") (auto split: prod.splits)
  have shape: "col_name col' = col_name col" "length (col_cells col') = length (col_cells col)"
    using auto_convert_column_shape[OF ac] by simp_all
  have in0: "col \<in> set ?t" and nm0: "col_name col = c"
    using get_column_Some[OF g] by simp_all
  let ?h1 = "h[r := set_column c col' ?t]"
  have h1r: "?h1 ! r = set_column c col' ?t"
    using Cons.prems(1) by simp
  have cols1: "columns (?h1 ! r) = columns ?t"
    using shape(1) nm0 by (simp add: h1r columns_set_column)
  have n1: "n_rows (?h1 ! r) = ?n"
    using n_rows_set_column[OF g shape(2)] by (simp add: h1r)
  have ih: "h' = ?h1[r := map (\<lambda>x. if col_name x \<in> set cs
                                 then typed_column L (n_rows (?h1 ! r)) x else x) (?h1 ! r)]"
  proof (rule Cons.IH[OF _ _ _ _ rest])
    show "r < length ?h1" using Cons.prems(1) by simp
    show "distinct (columns (?h1 ! r))" using Cons.prems(2) cols1 by simp
    show "set cs \<subseteq> set (columns (?h1 ! r))" using Cons.prems(3) cols1 by simp
    show "distinct cs" using Cons.prems(4) by simp
  qed
  have cnot: "c \<notin> set cs"
    using Cons.prems(4) by simp
  have tc: "typed_column L ?n col = col'"
    using ac by (simp add: typed_column_def)
  have "(if col_name (if col_name x = c then col' else x) \<in> set cs
         then typed_column L ?n (if col_name x = c then col' else x)
         else (if col_name x = c then col' else x))
        = (if col_name x \<in> set (c # cs) then typed_column L ?n x else x)"
    if "x \<in> set ?t" for x
  proof (cases "col_name x = c")
    case True
    then have "x = col"
      using distinct_name_unique[OF Cons.prems(2) that in0] nm0 by simp
    then show ?thesis
      using True cnot shape(1) nm0 tc by simp
  next
    case False
    then show ?thesis by simp
  qed
  then have eq: "map (\<lambda>x. if col_name x \<in> set cs then typed_column L ?n x else x) (set_column c col' ?t)
                 = map (\<lambda>x. if col_name x \<in> set (c # cs) then typed_column L ?n x else x) ?t"
    by (simp add: set_column_def)
  from ih have "h' = ?h1[r := map (\<lambda>x. if col_name x \<in> set cs then typed_column L ?n x else x)
                                 (set_column c col' ?t)]"
    unfolding h1r n_rows_set_column[OF g shape(2)] .
  also have "\<dots> = h[r := map (\<lambda>x. if col_name x \<in> set (c # cs) then typed_column L ?n x else x) ?t]"
    by (simp only: list_update_overwrite eq)
  finally show ?case .
qed

lemma auto_convert_loop_all:
  assumes "r < length h" and "distinct (columns (h ! r))"
    and "auto_convert_loop L (columns (h ! r)) r h [] = Inr (h', v)"
  shows "h' = h[r := map (typed_column L (n_rows (h ! r))) (h ! r)]"
proof -
  have "map (\<lambda>col. if col_name col \<in> set (columns (h ! r))
                    then typed_column L (n_rows (h ! r)) col else col) (h ! r)
        = map (typed_column L (n_rows (h ! r))) (h ! r)"
    by (simp add: columns_def)
  with auto_convert_loop_in_place[OF assms(1,2) _ assms(2,3)] show ?thesis
    by simp
qed

text \<open>
  C7. The schema reconciler works on a copy: \<open>coerce_to_schema\<close> returns a new table and
  every table that was there before, its input among them, is as it was. The conversions
  of Home.py do not copy: \<open>df\<close> is the table of the session itself, each \<open>df[col] = ...\<close>
  writes into it, and after the loop the table the caller holds has every column replaced
  by its typed column; no table is created and no other table changes. So the claim, that
  the typing pipeline leaves the caller's table unchanged, fails for Home.py.
\<close>

theorem C7_copy_and_in_place:
  assumes "r < length h"
  shows "(case coerce_to_schema_ref L r fam h of
            (r', h') \<Rightarrow> r' \<noteq> r \<and> h' ! r = h ! r \<and> (\<forall>q < length h. h' ! q = h ! q)
                        \<and> h' ! r' = coerce_to_schema L (h ! r) fam)
       \<and> (\<forall>st st' v.
             heap st = h \<and> ss_df st = Some r \<and> distinct (columns (h ! r))
             \<and> home_main L st = Inr (st', v)
             \<longrightarrow> ss_df st' = Some r \<and> length (heap st') = length h
                 \<and> heap st' ! r = map (typed_column L (n_rows (h ! r))) (h ! r)
                 \<and> (\<forall>q < length h. q \<noteq> r \<longrightarrow> heap st' ! q = h ! q))"
proof (intro conjI allI impI)
  show "case coerce_to_schema_ref L r fam h of
          (r', h') \<Rightarrow> r' \<noteq> r \<and> h' ! r = h ! r \<and> (\<forall>q < length h. h' ! q = h ! q)
                      \<and> h' ! r' = coerce_to_schema L (h ! r) fam"
    using assms by (simp add: coerce_to_schema_ref_def nth_append)
next
  fix st :: state and st' :: state and v
  assume a: "heap st = h \<and> ss_df st = Some r \<and> distinct (columns (h ! r))
             \<and> home_main L st = Inr (st', v)"
  then obtain h' where loop: "auto_convert_loop L (columns (h ! r)) r h [] = Inr (h', v)"
    and st': "st' = st\<lparr>heap := h', ss_df := Some r\<rparr>"
    by (auto simp: home_main_def split: sum.splits prod.splits)
  from a have d: "distinct (columns (h ! r))" by simp
  have h': "h' = h[r := map (typed_column L (n_rows (h ! r))) (h ! r)]"
    by (rule auto_convert_loop_all[OF assms d loop])
  show "ss_df st' = Some r" "length (heap st') = length h"
      "heap st' ! r = map (typed_column L (n_rows (h ! r))) (h ! r)"
    using assms by (simp_all add: st' h')
  fix q
  assume "q < length h" "q \<noteq> r"
  then show "heap st' ! q = h ! q"
    by (simp add: st' h')
qed

theorem C7_copy_and_in_place_witness:
  "coerce_to_schema_ref plain 0 [(''p'', ''int'')]
     [[\<lparr>col_name = ''p'', col_dtype = Object, col_cells = [Str ''$5'', Str ''$7'']\<rparr>]]
   = (1, [[\<lparr>col_name = ''p'', col_dtype = Object, col_cells = [Str ''$5'', Str ''$7'']\<rparr>],
          [\<lparr>col_name = ''p'', col_dtype = Int64Dtype, col_cells = [IntV 5, IntV 7]\<rparr>]])
   \<and> map_sum id (\<lambda>(st', v). heap st' ! 0)
       (home_main plain
          \<lparr>heap = [[\<lparr>col_name = ''p'', col_dtype = Object, col_cells = [Str ''$5'', Str ''$7'']\<rparr>]],
           ss_df = Some 0, ss_inc_new_df = None\<rparr>)
     = Inr [\<lparr>col_name = ''p'', col_dtype = Int64Dtype, col_cells = [IntV 5, IntV 7]\<rparr>]"
proof -
  let ?t = "[\<lparr>col_name = ''p'', col_dtype = Object, col_cells = [Str ''$5'', Str ''$7'']\<rparr>]"
  let ?t' = "[\<lparr>col_name = ''p'', col_dtype = Int64Dtype, col_cells = [IntV 5, IntV 7]\<rparr>]"
  let ?st = "\<lparr>heap = [?t], ss_df = Some 0, ss_inc_new_df = None\<rparr>"
  have r: "0 < length [?t]" by simp
  note t = C7_copy_and_in_place[OF r, of plain]
  have co: "coerce_to_schema plain ([?t] ! 0) [(''p'', ''int'')] = ?t'"
    by code_simp
  obtain r' h' where p: "coerce_to_schema_ref plain 0 [(''p'', ''int'')] [?t] = (r', h')"
    by (cases "coerce_to_schema_ref plain 0 [(''p'', ''int'')] [?t]")
  have l: "r' = 1 \<and> length h' = 2"
    using p by (auto simp: coerce_to_schema_ref_def)
  from t[of "[(''p'', ''int'')]"] p have "h' ! 0 = ?t" "h' ! r' = ?t'"
    using co by auto
  with l have "h' = [?t, ?t']"
    by (cases h'; cases "tl h'") auto
  with p l have a: "coerce_to_schema_ref plain 0 [(''p'', ''int'')] [?t] = (1, [?t, ?t'])"
    by simp
  let ?st' = "\<lparr>heap = [?t'], ss_df = Some 0, ss_inc_new_df = None\<rparr>"
  have s: "home_main plain ?st = Inr (?st', [(''p'', ''Int64'')])"
    by code_simp
  have ty: "map (typed_column plain (n_rows ([?t] ! 0))) ([?t] ! 0) = ?t'"
    by code_simp
  have d: "distinct (columns ([?t] ! 0))"
    by (simp add: columns_def)
  have pre: "heap ?st = [?t] \<and> ss_df ?st = Some 0 \<and> distinct (columns ([?t] ! 0))
             \<and> home_main plain ?st = Inr (?st', [(''p'', ''Int64'')])"
    using s d by simp
  from t[of "[]"] pre
  have "heap ?st' ! 0 = map (typed_column plain (n_rows ([?t] ! 0))) ([?t] ! 0)"
    by blast
  with ty s have b: "map_sum id (\<lambda>(st', v). heap st' ! 0) (home_main plain ?st) = Inr ?t'"
    by simp
  from a b show ?thesis
    by simp
qed

theorem C7_in_place_counterexample:
  "home_main plain
     \<lparr>heap = [[\<lparr>col_name = ''p'', col_dtype = Object, col_cells = [Str ''$5'', Str ''$7'']\<rparr>]],
      ss_df = Some 0, ss_inc_new_df = None\<rparr>
   = Inr (\<lparr>heap = [[\<lparr>col_name = ''p'', col_dtype = Int64Dtype, col_cells = [IntV 5, IntV 7]\<rparr>]],
           ss_df = Some 0, ss_inc_new_df = None\<rparr>,
          [(''p'', ''Int64'')])"
  by code_simp

end
